theory Spec2Isabelle
  imports Main "HOL-Library.Multiset" "HOL-Library.Product_Lexorder" "HOL-Library.Sublist"
begin

section \<open>Configuration\<close>

text \<open>The module constants of \<^verbatim>\<open>hn_digest.py\<close> that the pipeline reads.\<close>

definition OUTPUT_DIR :: string where
  "OUTPUT_DIR = ''~/Documents/hn-digests''"

definition MAX_POSTS :: int where
  "MAX_POSTS = 10"

definition MAX_COMMENTS :: int where
  "MAX_COMMENTS = 5"

section \<open>Exceptions and HTTP exchanges\<close>

text \<open>
  The exceptions that can travel through the pipeline. \<open>ConnectionError\<close>, \<open>Timeout\<close> and
  \<open>HTTPError\<close> are the subclasses of \<^verbatim>\<open>requests.RequestException\<close> that a GET
  can end in; the others are Python's built-in exceptions, \<open>RenderError\<close> stands for
  whatever the PDF writer raises, and \<open>SystemExit\<close> is what \<^verbatim>\<open>sys.exit\<close> raises,
  with the exit code. \<open>SystemExit\<close> is the only one that is not a subclass of
  \<^verbatim>\<open>Exception\<close>.
\<close>

datatype exn =
    ConnectionError
  | Timeout
  | HTTPError nat
  | KeyError
  | AttributeError
  | TypeError
  | ValueError
  | RenderError
  | SystemExit nat

fun is_RequestException :: "exn \<Rightarrow> bool" where
  "is_RequestException ConnectionError = True"
| "is_RequestException Timeout = True"
| "is_RequestException (HTTPError _) = True"
| "is_RequestException _ = False"

record 'a response =
  status_code :: nat
  payload :: 'a

text \<open>
  What one call of \<^verbatim>\<open>requests.get\<close> does: it raises for a connection error or a
  timeout, or it returns a response carrying a status code.
\<close>

datatype 'a attempt = ConnectionFailed | TimedOut | Responded "'a response"

text \<open>
  \<^verbatim>\<open>Response.raise_for_status()\<close> of the requests library raises \<open>HTTPError\<close> exactly for
  the client and server error classes, status 400 up to 599, and returns normally for every
  other status.
\<close>

definition raise_for_status :: "'a response \<Rightarrow> exn + unit" where
  "raise_for_status resp =
     (if 400 \<le> status_code resp \<and> status_code resp < 600
      then Inl (HTTPError (status_code resp)) else Inr ())"

text \<open>The body of the \<^verbatim>\<open>try\<close> block: the GET followed by \<^verbatim>\<open>raise_for_status\<close>.\<close>

definition get_checked :: "'a attempt \<Rightarrow> exn + 'a response" where
  "get_checked a =
     (case a of
        ConnectionFailed \<Rightarrow> Inl ConnectionError
      | TimedOut \<Rightarrow> Inl Timeout
      | Responded resp \<Rightarrow>
          (case raise_for_status resp of Inl e \<Rightarrow> Inl e | Inr _ \<Rightarrow> Inr resp))"

section \<open>The retry-wrapped fetch client\<close>

text \<open>
  \<^verbatim>\<open>_request_with_retry(url, params, timeout, retries=3)\<close>. The argument \<open>get\<close> gives the
  outcome of the GET issued in iteration \<open>attempt\<close> of the loop. The loop over
  \<^verbatim>\<open>range(retries)\<close> is a recursion over the list of attempt indices; the second
  component of the result is the list of the \<^verbatim>\<open>time.sleep\<close> durations, in seconds. A
  loop that runs out of indices falls off the end of the function, which returns \<open>None\<close>.
\<close>

fun retry_loop ::
  "(nat \<Rightarrow> 'a attempt) \<Rightarrow> nat \<Rightarrow> nat list \<Rightarrow> nat list \<Rightarrow> (exn + 'a response option) \<times> nat list"
where
  "retry_loop get retries [] sleeps = (Inr None, sleeps)"
| "retry_loop get retries (attempt # rest) sleeps =
     (case get_checked (get attempt) of
        Inr resp \<Rightarrow> (Inr (Some resp), sleeps)
      | Inl e \<Rightarrow>
          if Suc attempt = retries then (Inl e, sleeps)
          else retry_loop get retries rest (sleeps @ [1 * (attempt + 1)]))"

definition request_with_retry ::
  "(nat \<Rightarrow> 'a attempt) \<Rightarrow> nat \<Rightarrow> (exn + 'a response option) \<times> nat list"
where
  "request_with_retry get retries = retry_loop get retries [0..<retries] []"

text \<open>A finite script of outcomes, for concrete runs: later calls fail to connect.\<close>

definition script :: "'a attempt list \<Rightarrow> nat \<Rightarrow> 'a attempt" where
  "script outcomes i = (if i < length outcomes then outcomes ! i else ConnectionFailed)"

definition attempt_failed :: "'a attempt \<Rightarrow> bool" where
  "attempt_failed a = (case get_checked a of Inl _ \<Rightarrow> True | Inr _ \<Rightarrow> False)"

definition is_2xx :: "'a response \<Rightarrow> bool" where
  "is_2xx resp = (200 \<le> status_code resp \<and> status_code resp < 300)"

section \<open>Discovery: the query window\<close>

text \<open>
  \<^verbatim>\<open>find_top_posts_yesterday\<close> reads the clock once. \<open>now\<close> is that reading in epoch
  seconds; replacing hour, minute, second and microsecond of a UTC datetime by zero rounds
  it down to a multiple of 86400.
\<close>

definition today_utc :: "int \<Rightarrow> int" where
  "today_utc now = now - now mod 86400"

definition start_ts :: "int \<Rightarrow> int" where
  "start_ts now = today_utc now - 1 * 86400"

definition end_ts :: "int \<Rightarrow> int" where
  "end_ts now = today_utc now"

text \<open>
  The \<^verbatim>\<open>numericFilters\<close> parameter is a comma-separated conjunction of comparisons of a
  numeric attribute with a constant. The query built by the code uses the two operators
  below.
\<close>

datatype comparison = Greater string int | Less string int

record search_params =
  tags :: string
  numericFilters :: "comparison list"
  hitsPerPage :: int

definition discovery_params :: "int \<Rightarrow> int \<Rightarrow> search_params" where
  "discovery_params now limit =
     \<lparr> tags = ''story'',
       numericFilters = [Greater ''created_at_i'' (start_ts now), Less ''created_at_i'' (end_ts now)],
       hitsPerPage = limit \<rparr>"

fun holds :: "(string \<Rightarrow> int) \<Rightarrow> comparison \<Rightarrow> bool" where
  "holds attr (Greater name c) = (attr name > c)"
| "holds attr (Less name c) = (attr name < c)"

text \<open>A story created at time \<open>t\<close> is inside the queried window when every filter holds.\<close>

definition in_queried_window :: "int \<Rightarrow> int \<Rightarrow> bool" where
  "in_queried_window now t =
     list_all (holds (\<lambda>name. if name = ''created_at_i'' then t else 0))
       (numericFilters (discovery_params now MAX_POSTS))"

definition yields_2xx :: "'a attempt \<Rightarrow> bool" where
  "yields_2xx a = (case a of Responded resp \<Rightarrow> is_2xx resp | _ \<Rightarrow> False)"

section \<open>Python values\<close>

text \<open>
  The item-lookup service answers with JSON, which the code reads as Python values without
  checking their shape: \<open>None\<close>, booleans, numbers, strings, lists and dictionaries. A
  dictionary is the list of its items, keys distinct; numbers are integers.
\<close>

datatype json =
    JNull
  | JBool bool
  | JInt int
  | JStr string
  | JArr "json list"
  | JObj "(string \<times> json) list"

text \<open>The truth value of a Python value, as \<^verbatim>\<open>if x\<close> and \<^verbatim>\<open>not x\<close> take it.\<close>

fun truthy :: "json \<Rightarrow> bool" where
  "truthy JNull = False"
| "truthy (JBool b) = b"
| "truthy (JInt n) = (n \<noteq> 0)"
| "truthy (JStr s) = (s \<noteq> [])"
| "truthy (JArr xs) = (xs \<noteq> [])"
| "truthy (JObj kvs) = (kvs \<noteq> [])"

text \<open>Sequencing of computations that may raise.\<close>

definition and_then :: "exn + 'a \<Rightarrow> ('a \<Rightarrow> exn + 'b) \<Rightarrow> exn + 'b" where
  "and_then m f = (case m of Inl e \<Rightarrow> Inl e | Inr x \<Rightarrow> f x)"

text \<open>The results of a list of computations, or the first exception among them.\<close>

fun all_results :: "(exn + 'a) list \<Rightarrow> exn + 'a list" where
  "all_results [] = Inr []"
| "all_results (m # ms) =
     (case m of
        Inl e \<Rightarrow> Inl e
      | Inr x \<Rightarrow> (case all_results ms of Inl e \<Rightarrow> Inl e | Inr xs \<Rightarrow> Inr (x # xs)))"

text \<open>
  \<^verbatim>\<open>x.get(key, default)\<close>: only a dictionary has the method; on any other value the
  attribute lookup raises.
\<close>

fun dict_get :: "json \<Rightarrow> string \<Rightarrow> json \<Rightarrow> exn + json" where
  "dict_get (JObj kvs) key dflt = Inr (case map_of kvs key of None \<Rightarrow> dflt | Some v \<Rightarrow> v)"
| "dict_get _ key dflt = Inl AttributeError"

text \<open>\<^verbatim>\<open>x[key]\<close> with a string key.\<close>

fun dict_index :: "json \<Rightarrow> string \<Rightarrow> exn + json" where
  "dict_index (JObj kvs) key = (case map_of kvs key of None \<Rightarrow> Inl KeyError | Some v \<Rightarrow> Inr v)"
| "dict_index _ key = Inl TypeError"

text \<open>\<^verbatim>\<open>len(x)\<close>.\<close>

fun py_len :: "json \<Rightarrow> exn + nat" where
  "py_len (JArr xs) = Inr (length xs)"
| "py_len (JStr s) = Inr (length s)"
| "py_len (JObj kvs) = Inr (length kvs)"
| "py_len _ = Inl TypeError"

text \<open>
  The elements that slicing and iteration see: those of a list, or the characters of a
  string. Slicing any other value raises.
\<close>

fun sequence_items :: "json \<Rightarrow> exn + json list" where
  "sequence_items (JArr xs) = Inr xs"
| "sequence_items (JStr s) = Inr (map (\<lambda>c. JStr [c]) s)"
| "sequence_items _ = Inl TypeError"

text \<open>\<^verbatim>\<open>xs[:n]\<close>: a negative bound counts from the end.\<close>

definition slice_to :: "int \<Rightarrow> 'a list \<Rightarrow> 'a list" where
  "slice_to n xs = (if 0 \<le> n then take (nat n) xs else take (nat (int (length xs) + n)) xs)"

text \<open>
  A value used as a dictionary key. Lists and dictionaries are unhashable; \<open>True\<close> and
  \<open>False\<close> are the keys \<open>1\<close> and \<open>0\<close>.
\<close>

fun hash_key :: "json \<Rightarrow> exn + json" where
  "hash_key (JArr xs) = Inl TypeError"
| "hash_key (JObj kvs) = Inl TypeError"
| "hash_key (JBool b) = Inr (JInt (if b then 1 else 0))"
| "hash_key v = Inr v"

section \<open>Comment aggregation\<close>

text \<open>
  \<^verbatim>\<open>fetch_item(item_id)\<close>. \<open>lookup item_id\<close> gives the outcomes of the successive GETs for
  that item; the payload of a response is the value that \<^verbatim>\<open>.json()\<close> decodes. A
  \<open>RequestException\<close> out of the retry client turns into \<open>None\<close>.
\<close>

definition fetch_item :: "(json \<Rightarrow> nat \<Rightarrow> json attempt) \<Rightarrow> json \<Rightarrow> exn + json" where
  "fetch_item lookup item_id =
     (case fst (request_with_retry (lookup item_id) 3) of
        Inl e \<Rightarrow> if is_RequestException e then Inr JNull else Inl e
      | Inr None \<Rightarrow> Inl AttributeError
      | Inr (Some resp) \<Rightarrow> Inr (payload resp))"

text \<open>
  \<^verbatim>\<open>as_completed(futures)\<close> yields the futures in the order in which they finish.
  \<open>finish i\<close> is the time at which the fetch of the \<open>i\<close>-th identifier of the batch
  finishes; every order of completion arises from some \<open>finish\<close>.
\<close>

definition as_completed :: "(nat \<Rightarrow> nat) \<Rightarrow> nat \<Rightarrow> nat list" where
  "as_completed finish n = sort_key finish [0..<n]"

text \<open>The condition under which the loop keeps a fetched item.\<close>

definition keep_item :: "json \<Rightarrow> exn + bool" where
  "keep_item item =
     (if \<not> truthy item then Inr False
      else and_then (dict_get item ''type'' JNull) (\<lambda>t.
        if t \<noteq> JStr ''comment'' then Inr False
        else and_then (dict_get item ''deleted'' JNull) (\<lambda>deleted.
          if truthy deleted then Inr False
          else and_then (dict_get item ''dead'' JNull) (\<lambda>dead.
            Inr (\<not> truthy dead)))))"

text \<open>
  The loop over the completed futures: \<^verbatim>\<open>future.result()\<close> re-raises what the fetch
  raised, and a kept item is appended to \<open>comments\<close>.
\<close>

fun collect_comments :: "(exn + json) list \<Rightarrow> json list \<Rightarrow> exn + json list" where
  "collect_comments [] comments = Inr comments"
| "collect_comments (result # rest) comments =
     (case result of
        Inl e \<Rightarrow> Inl e
      | Inr item \<Rightarrow>
          (case keep_item item of
             Inl e \<Rightarrow> Inl e
           | Inr keep \<Rightarrow> collect_comments rest (if keep then comments @ [item] else comments)))"

text \<open>
  \<^verbatim>\<open>{cid: i for i, cid in enumerate(kid_ids)}\<close>: a later occurrence of a key replaces an
  earlier one.
\<close>

fun position_map_from :: "nat \<Rightarrow> json list \<Rightarrow> (json \<rightharpoonup> nat) \<Rightarrow> exn + (json \<rightharpoonup> nat)" where
  "position_map_from i [] m = Inr m"
| "position_map_from i (cid # rest) m =
     (case hash_key cid of
        Inl e \<Rightarrow> Inl e
      | Inr k \<Rightarrow> position_map_from (Suc i) rest (m(k \<mapsto> i)))"

text \<open>
  The sort key \<^verbatim>\<open>(-len(c.get("kids", [])), position_map.get(c["id"], 999))\<close>; the tuple
  is built from left to right.
\<close>

definition sort_key_of :: "(json \<rightharpoonup> nat) \<Rightarrow> json \<Rightarrow> exn + (int \<times> int)" where
  "sort_key_of position_map c =
     and_then (dict_get c ''kids'' (JArr [])) (\<lambda>kids.
       and_then (py_len kids) (\<lambda>n.
         and_then (dict_index c ''id'') (\<lambda>cid.
           and_then (hash_key cid) (\<lambda>k.
             Inr (- int n, case position_map k of None \<Rightarrow> 999 | Some p \<Rightarrow> int p)))))"

text \<open>
  \<^verbatim>\<open>xs.sort(key=f)\<close>: the keys of all elements are computed first, in list order; the sort
  is stable and ascending.
\<close>

definition py_sort :: "('a \<Rightarrow> exn + 'k::linorder) \<Rightarrow> 'a list \<Rightarrow> exn + 'a list" where
  "py_sort f xs =
     (case all_results (map f xs) of
        Inl e \<Rightarrow> Inl e
      | Inr ks \<Rightarrow> Inr (map snd (sort_key fst (zip ks xs))))"

text \<open>
  \<^verbatim>\<open>fetch_top_comments(story_id, limit)\<close>, in three parts: the concurrent fetch of the
  batch with the filtering loop, the ranking with the final truncation, and the function
  itself.
\<close>

definition fetch_batch ::
  "(json \<Rightarrow> nat \<Rightarrow> json attempt) \<Rightarrow> (nat \<Rightarrow> nat) \<Rightarrow> json list \<Rightarrow> exn + json list"
where
  "fetch_batch lookup finish batch_ids =
     collect_comments
       (map (\<lambda>i. fetch_item lookup (batch_ids ! i)) (as_completed finish (length batch_ids)))
       []"

definition rank_comments :: "json list \<Rightarrow> int \<Rightarrow> json list \<Rightarrow> exn + json list" where
  "rank_comments kid_ids limit comments =
     and_then (position_map_from 0 kid_ids Map.empty) (\<lambda>position_map.
       and_then (py_sort (sort_key_of position_map) comments) (\<lambda>sorted_comments.
         Inr (slice_to limit sorted_comments)))"

definition fetch_top_comments ::
  "(json \<Rightarrow> nat \<Rightarrow> json attempt) \<Rightarrow> (nat \<Rightarrow> nat) \<Rightarrow> json \<Rightarrow> int \<Rightarrow> exn + json list"
where
  "fetch_top_comments lookup finish story_id limit =
     and_then (fetch_item lookup story_id) (\<lambda>story.
       if \<not> truthy story then Inr []
       else and_then (dict_get story ''kids'' (JArr [])) (\<lambda>kid_ids.
         if \<not> truthy kid_ids then Inr []
         else and_then (sequence_items kid_ids) (\<lambda>ids.
           and_then (fetch_batch lookup finish (slice_to (limit + 10) ids))
             (rank_comments ids limit))))"

subsection \<open>The ranking rule in the words of the specification\<close>

text \<open>
  The notions that the specification's ranking rule speaks of: the item that a lookup
  yields, whether the filter keeps it, the candidates of a story in the order of its
  reply-identifier list, the number of a comment's own reply identifiers, and the
  position of a comment in the story's reply-identifier list.
\<close>

definition fetched :: "(json \<Rightarrow> nat \<Rightarrow> json attempt) \<Rightarrow> json \<Rightarrow> json" where
  "fetched lookup cid = (case fetch_item lookup cid of Inr item \<Rightarrow> item | Inl _ \<Rightarrow> JNull)"

definition kept :: "json \<Rightarrow> bool" where
  "kept item = (keep_item item = Inr True)"

definition candidates :: "(json \<Rightarrow> nat \<Rightarrow> json attempt) \<Rightarrow> json list \<Rightarrow> int \<Rightarrow> json list" where
  "candidates lookup kid_ids limit =
     filter kept (map (fetched lookup) (slice_to (limit + 10) kid_ids))"

definition reply_count :: "json \<Rightarrow> nat" where
  "reply_count c = (case dict_get c ''kids'' (JArr []) of Inr (JArr ks) \<Rightarrow> length ks | _ \<Rightarrow> 0)"

definition index_of :: "'a \<Rightarrow> 'a list \<Rightarrow> nat" where
  "index_of x xs = length (takeWhile (\<lambda>y. y \<noteq> x) xs)"

definition original_position :: "json list \<Rightarrow> json \<Rightarrow> nat" where
  "original_position kid_ids c =
     (case dict_index c ''id'' of Inr cid \<Rightarrow> index_of cid kid_ids | Inl _ \<Rightarrow> length kid_ids)"

text \<open>
  The shape of an answer of the item-lookup service to the lookup of \<open>cid\<close>, as its
  interface describes it: nothing, or an object that carries the identifier asked for and
  whose reply identifiers, if any, form a list.
\<close>

fun is_JInt :: "json \<Rightarrow> bool" where
  "is_JInt (JInt n) = True"
| "is_JInt _ = False"

fun well_formed_reply :: "json \<Rightarrow> json \<Rightarrow> bool" where
  "well_formed_reply cid JNull = True"
| "well_formed_reply cid (JObj kvs) =
     (map_of kvs ''id'' = Some cid
      \<and> (case map_of kvs ''kids'' of None \<Rightarrow> True | Some (JArr ks) \<Rightarrow> True | Some _ \<Rightarrow> False))"
| "well_formed_reply cid _ = False"

subsection \<open>An item-lookup service for concrete runs\<close>

definition ok_response :: "'a \<Rightarrow> 'a attempt" where
  "ok_response v = Responded \<lparr>status_code = 200, payload = v\<rparr>"

text \<open>
  A service given by a table from identifiers to scripts of outcomes; for an identifier
  that it does not know it answers \<open>null\<close> with status 200.
\<close>

definition item_service :: "(json \<times> json attempt list) list \<Rightarrow> json \<Rightarrow> nat \<Rightarrow> json attempt" where
  "item_service table item_id n =
     (case map_of table item_id of None \<Rightarrow> ok_response JNull | Some outcomes \<Rightarrow> script outcomes n)"

definition comment_item :: "int \<Rightarrow> int list \<Rightarrow> json" where
  "comment_item n kids =
     JObj [(''id'', JInt n), (''type'', JStr ''comment''), (''by'', JStr ''carol''),
           (''time'', JInt 1704190000), (''text'', JStr ''<p>Reply</p>''),
           (''kids'', JArr (map JInt kids))]"

text \<open>
  A story with four replies whose reply counts are 3, 1, 3 and 0, at positions 0 to 3 of
  the story's reply list. The lookup of the second reply times out once.
\<close>

definition replies_service :: "json \<Rightarrow> nat \<Rightarrow> json attempt" where
  "replies_service =
     item_service
       [(JInt 1, [ok_response (JObj [(''id'', JInt 1), (''type'', JStr ''story''),
                    (''kids'', JArr [JInt 10, JInt 11, JInt 12, JInt 13])])]),
        (JInt 10, [ok_response (comment_item 10 [101, 102, 103])]),
        (JInt 11, [TimedOut, ok_response (comment_item 11 [111])]),
        (JInt 12, [ok_response (comment_item 12 [121, 122, 123])]),
        (JInt 13, [ok_response (comment_item 13 [])])]"

text \<open>Completion times under which the fetch submitted last finishes first.\<close>

definition reverse_order :: "nat \<Rightarrow> nat" where
  "reverse_order i = 100 - i"

text \<open>Completion times under which the fetches finish in the order of submission.\<close>

definition submission_order :: "nat \<Rightarrow> nat" where
  "submission_order i = i"

section \<open>Posts and the outside world\<close>

text \<open>
  A post as \<^verbatim>\<open>find_top_posts_yesterday\<close> builds it from a hit of the discovery index.
  The title, the author and the creation time are strings and the scores are integers;
  \<open>url\<close> and \<open>story_text\<close> may be \<open>None\<close>. The identifier is the number that the
  hit's \<open>objectID\<close> spells and that \<^verbatim>\<open>int(post["id"])\<close> reads.
\<close>

record post =
  post_id :: int
  title :: string
  url :: "string option"
  story_text :: "string option"
  points :: int
  num_comments :: int
  author :: string
  created_at :: string

datatype html = Text string | Element string "(string \<times> string) list" "html list"

text \<open>
  Everything that a run reads from outside the program: the clock at discovery and at
  rendering, with the offset of the local time zone from UTC in seconds; the discovery
  index, the web pages and the item-lookup service, each as the outcomes of its GETs; the
  order in which the comment fetches of a story finish; and the libraries whose results
  the code passes on: the readability reduction (\<open>None\<close> when it raises), the HTML
  parser with its serialiser, \<^verbatim>\<open>urljoin\<close>, the formatting of a UTC timestamp (which
  raises outside the range of \<^verbatim>\<open>datetime\<close>), the \<^verbatim>\<open>repr\<close> of lists and
  dictionaries, and the PDF writer, which may raise.
\<close>

record world =
  clock_at_discovery :: int
  clock_at_render :: int
  local_utc_offset :: int
  search_index :: "search_params \<Rightarrow> nat \<Rightarrow> post list attempt"
  web_page :: "string \<Rightarrow> string attempt"
  readability_summary :: "string \<Rightarrow> string option"
  soup_of :: "string \<Rightarrow> html list"
  soup_str :: "html list \<Rightarrow> string"
  url_join :: "string \<Rightarrow> string \<Rightarrow> exn + string"
  item_lookup :: "json \<Rightarrow> nat \<Rightarrow> json attempt"
  completion_time :: "int \<Rightarrow> nat \<Rightarrow> nat"
  strftime_utc :: "int \<Rightarrow> exn + string"
  container_repr :: "json \<Rightarrow> string"
  write_pdf :: "string \<Rightarrow> exn option"

section \<open>Discovery\<close>

text \<open>
  \<^verbatim>\<open>find_top_posts_yesterday(limit)\<close>. The payload of the index's answer is its list of
  hits. An exception of the retry client is not caught here; an empty list of hits ends
  the process through \<^verbatim>\<open>sys.exit(0)\<close>.
\<close>

definition find_top_posts_yesterday :: "world \<Rightarrow> int \<Rightarrow> exn + post list" where
  "find_top_posts_yesterday w limit =
     (case fst (request_with_retry
                  (search_index w (discovery_params (clock_at_discovery w) limit)) 3) of
        Inl e \<Rightarrow> Inl e
      | Inr None \<Rightarrow> Inl AttributeError
      | Inr (Some resp) \<Rightarrow>
          if payload resp = [] then Inl (SystemExit 0)
          else Inr (slice_to limit (payload resp)))"

section \<open>Article extraction\<close>

text \<open>
  \<^verbatim>\<open>tag.decompose()\<close> for every element named in \<open>names\<close>: the element goes, with all
  that it contains.
\<close>

fun decompose_tags :: "string list \<Rightarrow> html \<Rightarrow> html list" where
  "decompose_tags names (Text t) = [Text t]"
| "decompose_tags names (Element tag attrs children) =
     (if tag \<in> set names then []
      else [Element tag attrs (concat (map (decompose_tags names) children))])"

text \<open>\<^verbatim>\<open>s.startswith(heads)\<close> with a tuple of prefixes.\<close>

definition startswith :: "string \<Rightarrow> string list \<Rightarrow> bool" where
  "startswith s heads = list_ex (\<lambda>p. take (length p) s = p) heads"

text \<open>The condition \<^verbatim>\<open>src and not src.startswith(("http://", "https://", "data:"))\<close>.\<close>

definition needs_resolving :: "string \<Rightarrow> bool" where
  "needs_resolving src = (src \<noteq> [] \<and> \<not> startswith src [''http://'', ''https://'', ''data:''])"

text \<open>\<^verbatim>\<open>img["src"] = value\<close> on the attribute dictionary of an element.\<close>

definition set_attr :: "string \<Rightarrow> string \<Rightarrow> (string \<times> string) list \<Rightarrow> (string \<times> string) list" where
  "set_attr key v attrs =
     (if key \<in> fst ` set attrs then map (\<lambda>(k, old). if k = key then (k, v) else (k, old)) attrs
      else attrs @ [(key, v)])"

text \<open>The attributes of an element after the loop over the images has visited it.\<close>

definition rewrite_src ::
  "(string \<Rightarrow> exn + string) \<Rightarrow> string \<Rightarrow> (string \<times> string) list \<Rightarrow> exn + (string \<times> string) list"
where
  "rewrite_src resolve tag attrs =
     (if tag = ''img'' then
        (case map_of attrs ''src'' of
           None \<Rightarrow> Inr attrs
         | Some src \<Rightarrow>
             if needs_resolving src
             then (case resolve src of Inl e \<Rightarrow> Inl e | Inr absolute \<Rightarrow> Inr (set_attr ''src'' absolute attrs))
             else Inr attrs)
      else Inr attrs)"

text \<open>
  The loop \<^verbatim>\<open>for img in soup.find_all("img")\<close>, in document order; \<open>resolve\<close> is
  \<^verbatim>\<open>urljoin\<close> applied to the page's URL, and what it raises leaves the loop.
\<close>

fun rewrite_images :: "(string \<Rightarrow> exn + string) \<Rightarrow> html \<Rightarrow> exn + html" where
  "rewrite_images resolve (Text t) = Inr (Text t)"
| "rewrite_images resolve (Element tag attrs children) =
     (case rewrite_src resolve tag attrs of
        Inl e \<Rightarrow> Inl e
      | Inr attrs' \<Rightarrow>
          (case all_results (map (rewrite_images resolve) children) of
             Inl e \<Rightarrow> Inl e
           | Inr children' \<Rightarrow> Inr (Element tag attrs' children')))"

definition clean_soup :: "(string \<Rightarrow> exn + string) \<Rightarrow> html list \<Rightarrow> exn + html list" where
  "clean_soup resolve soup =
     all_results
       (map (rewrite_images resolve)
          (concat (map (decompose_tags [''script'', ''style'', ''iframe'']) soup)))"

record article =
  content_html :: string

text \<open>
  \<^verbatim>\<open>fetch_article(url)\<close>. The page is requested once; only the request and the
  readability reduction stand inside \<^verbatim>\<open>try\<close> blocks.
\<close>

definition fetch_article :: "world \<Rightarrow> string option \<Rightarrow> exn + article option" where
  "fetch_article w page_url =
     (case page_url of
        None \<Rightarrow> Inr None
      | Some u \<Rightarrow>
          if u = [] then Inr None
          else
            (case get_checked (web_page w u) of
               Inl e \<Rightarrow> if is_RequestException e then Inr None else Inl e
             | Inr resp \<Rightarrow>
                 (case readability_summary w (payload resp) of
                    None \<Rightarrow> Inr None
                  | Some summary_html \<Rightarrow>
                      (case clean_soup (url_join w u) (soup_of w summary_html) of
                         Inl e \<Rightarrow> Inl e
                       | Inr soup \<Rightarrow> Inr (Some \<lparr>content_html = soup_str w soup\<rparr>)))))"

text \<open>The \<open>src\<close> attributes of the images of a fragment, in document order.\<close>

fun image_sources :: "html \<Rightarrow> string option list" where
  "image_sources (Text t) = []"
| "image_sources (Element tag attrs children) =
     (if tag = ''img'' then [map_of attrs ''src''] else []) @ concat (map image_sources children)"

text \<open>
  How the source of an image after the loop relates to its source before: a missing source
  stays missing, a source that needs resolving is replaced by the answer of the resolver,
  and any other source stays as it is.
\<close>

definition src_rewritten :: "(string \<Rightarrow> exn + string) \<Rightarrow> string option \<Rightarrow> string option \<Rightarrow> bool" where
  "src_rewritten resolve old new =
     (case old of
        None \<Rightarrow> new = None
      | Some src \<Rightarrow>
          if needs_resolving src then (\<exists>absolute. resolve src = Inr absolute \<and> new = Some absolute)
          else new = Some src)"

text \<open>
  A resolver given by a table of answers of \<^verbatim>\<open>urljoin\<close>, for concrete runs; outside the
  table it raises.
\<close>

definition url_join_table ::
  "((string \<times> string) \<times> (exn + string)) list \<Rightarrow> string \<Rightarrow> string \<Rightarrow> exn + string"
where
  "url_join_table table base ref =
     (case map_of table (base, ref) of None \<Rightarrow> Inl ValueError | Some answer \<Rightarrow> answer)"

section \<open>Rendering\<close>

subsection \<open>Strings\<close>

text \<open>\<^verbatim>\<open>html.escape(s)\<close>, with quotes escaped too.\<close>

definition escape_char :: "char \<Rightarrow> string" where
  "escape_char c =
     (if c = CHR ''&'' then ''&amp;''
      else if c = CHR ''<'' then ''&lt;''
      else if c = CHR ''>'' then ''&gt;''
      else if c = CHR 0x22 then ''&quot;''
      else if c = CHR 0x27 then ''&#x27;''
      else [c])"

definition escape :: "string \<Rightarrow> string" where
  "escape s = concat (map escape_char s)"

text \<open>\<^verbatim>\<open>str(n)\<close> for an integer, and \<^verbatim>\<open>"\n".join(lines)\<close>.\<close>

fun str_nat :: "nat \<Rightarrow> string" where
  "str_nat n =
     (if n < 10 then [''0123456789'' ! n]
      else str_nat (n div 10) @ [''0123456789'' ! (n mod 10)])"

declare str_nat.simps [simp del]

definition str_int :: "int \<Rightarrow> string" where
  "str_int n = (if n < 0 then CHR ''-'' # str_nat (nat (- n)) else str_nat (nat n))"

fun join_lines :: "string list \<Rightarrow> string" where
  "join_lines [] = []"
| "join_lines [l] = l"
| "join_lines (l # ls) = l @ ''\<newline>'' @ join_lines ls"

text \<open>
  What \<^verbatim>\<open>str.format\<close> puts in the place of a field: a string as it is, any other value
  through \<^verbatim>\<open>str\<close>.
\<close>

fun format_value :: "(json \<Rightarrow> string) \<Rightarrow> json \<Rightarrow> string" where
  "format_value container (JStr s) = s"
| "format_value container JNull = ''None''"
| "format_value container (JBool b) = (if b then ''True'' else ''False'')"
| "format_value container (JInt n) = str_int n"
| "format_value container v = container v"

subsection \<open>Templates\<close>

text \<open>
  The templates of the source, each as the function that \<^verbatim>\<open>.format\<close> computes from the
  strings put into its fields.
\<close>

definition COMMENT_TEMPLATE :: "string \<Rightarrow> string \<Rightarrow> string \<Rightarrow> string \<Rightarrow> string" where
  \<open>COMMENT_TEMPLATE author_f time_f reply_count_f body_f =
     ''<div class="comment">\<newline>'' @
     ''    <div class="comment-meta">\<newline>'' @
     ''        <strong>'' @ author_f @ ''</strong> &middot; '' @ time_f @
       '' &middot; '' @ reply_count_f @ '' replies\<newline>'' @
     ''    </div>\<newline>'' @
     ''    <div class="comment-body">'' @ body_f @ ''</div>\<newline>'' @
     ''</div>\<newline>''\<close>

record section_fields =
  rank_field :: string
  total_field :: string
  title_field :: string
  points_field :: string
  author_field :: string
  num_comments_field :: string
  story_id_field :: string
  url_link_field :: string
  article_section_field :: string
  comment_count_field :: string
  comments_html_field :: string

definition SECTION_TEMPLATE :: "section_fields \<Rightarrow> string" where
  \<open>SECTION_TEMPLATE f =
     ''<div class="post-section" id="post-'' @ rank_field f @ ''">\<newline>'' @
     ''    <div class="post-card">\<newline>'' @
     ''        <div class="post-card-header">\<newline>'' @
     ''            <div class="rank-badge">#'' @ rank_field f @ '' of '' @ total_field f @
       ''</div>\<newline>'' @
     ''            <h1>'' @ title_field f @ ''</h1>\<newline>'' @
     ''        </div>\<newline>'' @
     ''        <div class="post-card-meta">\<newline>'' @
     ''            <span class="stat"><span class="stat-value">'' @ points_field f @
       ''</span> points</span>\<newline>'' @
     ''            <span class="stat"><span class="stat-value">'' @ num_comments_field f @
       ''</span> comments</span>\<newline>'' @
     ''            <span class="stat">by <strong>'' @ author_field f @
       ''</strong></span>\<newline>'' @
     ''            | <a href="https://news.ycombinator.com/item?id='' @ story_id_field f @
       ''">View on HN</a>\<newline>'' @
     ''            '' @ url_link_field f @ ''\<newline>'' @
     ''        </div>\<newline>'' @
     ''    </div>\<newline>'' @
     ''\<newline>'' @
     ''    <div class="article">\<newline>'' @
     ''        <h2>Article</h2>\<newline>'' @
     ''        '' @ article_section_field f @ ''\<newline>'' @
     ''    </div>\<newline>'' @
     ''\<newline>'' @
     ''    <div class="comments">\<newline>'' @
     ''        <h2>Top '' @ comment_count_field f @ '' Comments</h2>\<newline>'' @
     ''        '' @ comments_html_field f @ ''\<newline>'' @
     ''    </div>\<newline>'' @
     ''</div>\<newline>''\<close>

definition TOC_ENTRY_TEMPLATE :: "string \<Rightarrow> string \<Rightarrow> string \<Rightarrow> string \<Rightarrow> string \<Rightarrow> string" where
  \<open>TOC_ENTRY_TEMPLATE rank_f title_f points_f num_comments_f author_f =
     ''<div class="toc-item">\<newline>'' @
     ''    <span class="toc-item-rank">'' @ rank_f @ ''</span>\<newline>'' @
     ''    <span class="toc-item-title"><a href="#post-'' @ rank_f @ ''">'' @ title_f @
       ''</a></span>\<newline>'' @
     ''    <div class="toc-item-meta">'' @ points_f @ '' points &middot; '' @ num_comments_f @
       '' comments &middot; by '' @ author_f @ ''</div>\<newline>'' @
     ''</div>\<newline>''\<close>

definition TOC_TEMPLATE :: "string \<Rightarrow> string \<Rightarrow> string" where
  \<open>TOC_TEMPLATE date_f toc_entries_f =
     ''<div class="toc">\<newline>'' @
     ''    <div class="toc-header">\<newline>'' @
     ''        <h1>Hacker News Daily Digest</h1>\<newline>'' @
     ''        <div class="toc-subtitle">'' @ date_f @ ''</div>\<newline>'' @
     ''    </div>\<newline>'' @
     ''    <div class="toc-list">\<newline>'' @
     ''        '' @ toc_entries_f @ ''\<newline>'' @
     ''    </div>\<newline>'' @
     ''</div>\<newline>''\<close>

subsection \<open>Sections\<close>

text \<open>The three-way choice of the body at the head of \<^verbatim>\<open>render_section\<close>.\<close>

definition article_section :: "post \<Rightarrow> article option \<Rightarrow> string" where
  \<open>article_section p art =
     (case art of
        Some a \<Rightarrow> ''<div class="content">'' @ content_html a @ ''</div>''
      | None \<Rightarrow>
          (case story_text p of
             Some t \<Rightarrow>
               if t \<noteq> [] then ''<div class="content">'' @ t @ ''</div>''
               else ''<div class="unavailable">Article content could not be retrieved.</div>''
           | None \<Rightarrow> ''<div class="unavailable">Article content could not be retrieved.</div>''))\<close>

definition url_link :: "post \<Rightarrow> string" where
  \<open>url_link p =
     (case url p of
        None \<Rightarrow> []
      | Some u \<Rightarrow>
          if u = [] then []
          else
            (let display_url = (if length u > 60 then take 57 u @ ''...'' else u)
             in '' | <a href="'' @ escape u @ ''">'' @ escape display_url @ ''</a>''))\<close>

text \<open>
  One round of the loop over the comments. \<^verbatim>\<open>c["time"]\<close> must be there and be a number
  (a boolean counts as one); \<^verbatim>\<open>escape\<close> needs a string.
\<close>

definition comment_block :: "world \<Rightarrow> json \<Rightarrow> exn + string" where
  \<open>comment_block w c =
     and_then (dict_index c ''time'') (\<lambda>t.
       and_then
         (case t of
            JInt n \<Rightarrow> strftime_utc w n
          | JBool b \<Rightarrow> strftime_utc w (if b then 1 else 0)
          | _ \<Rightarrow> Inl TypeError)
         (\<lambda>time_str.
           and_then (dict_get c ''kids'' (JArr [])) (\<lambda>kids.
             and_then (py_len kids) (\<lambda>reply_count.
               and_then (dict_get c ''by'' (JStr ''[unknown]'')) (\<lambda>by.
                 and_then (case by of JStr s \<Rightarrow> Inr (escape s) | _ \<Rightarrow> Inl AttributeError)
                   (\<lambda>author_html.
                     and_then (dict_get c ''text'' (JStr ''<em>[deleted]</em>'')) (\<lambda>body.
                       Inr (COMMENT_TEMPLATE author_html time_str (str_nat reply_count)
                              (format_value (container_repr w) body)))))))))\<close>

text \<open>The fields that \<^verbatim>\<open>render_section\<close> hands to \<^verbatim>\<open>SECTION_TEMPLATE.format\<close>.\<close>

definition fields_of :: "post \<Rightarrow> article option \<Rightarrow> json list \<Rightarrow> string list \<Rightarrow> nat \<Rightarrow> nat \<Rightarrow> section_fields" where
  "fields_of p art comments comment_blocks rank total_count =
     \<lparr> rank_field = str_nat rank,
       total_field = str_nat total_count,
       title_field = escape (title p),
       points_field = str_int (points p),
       author_field = escape (author p),
       num_comments_field = str_int (num_comments p),
       story_id_field = str_int (post_id p),
       url_link_field = url_link p,
       article_section_field = article_section p art,
       comment_count_field = str_nat (length comments),
       comments_html_field = join_lines comment_blocks \<rparr>"

definition render_section ::
  "world \<Rightarrow> post \<Rightarrow> article option \<Rightarrow> json list \<Rightarrow> nat \<Rightarrow> nat \<Rightarrow> exn + string"
where
  "render_section w p art comments rank total_count =
     and_then (all_results (map (comment_block w) comments)) (\<lambda>comment_blocks.
       Inr (SECTION_TEMPLATE (fields_of p art comments comment_blocks rank total_count)))"

subsection \<open>Dates\<close>

text \<open>
  A date is the number of its day, counted from 1970-01-01. \<open>civil_from_days\<close> gives the
  year, month and day of the proleptic Gregorian calendar that \<^verbatim>\<open>datetime.date\<close> uses.
\<close>

definition civil_from_days :: "int \<Rightarrow> int \<times> int \<times> int" where
  "civil_from_days days =
     (let z = days + 719468;
          era = z div 146097;
          doe = z mod 146097;
          yoe = (doe - doe div 1460 + doe div 36524 - doe div 146096) div 365;
          doy = doe - (365 * yoe + yoe div 4 - yoe div 100);
          mp = (5 * doy + 2) div 153;
          d = doy - (153 * mp + 2) div 5 + 1;
          m = (if mp < 10 then mp + 3 else mp - 9);
          y = yoe + era * 400 + (if m \<le> 2 then 1 else 0)
      in (y, m, d))"

definition zero_pad :: "nat \<Rightarrow> string \<Rightarrow> string" where
  "zero_pad width s = replicate (width - length s) (CHR ''0'') @ s"

text \<open>\<^verbatim>\<open>d.isoformat()\<close> and \<^verbatim>\<open>d.strftime("%B %d, %Y")\<close>.\<close>

definition isoformat :: "int \<Rightarrow> string" where
  "isoformat days =
     (case civil_from_days days of
        (y, m, d) \<Rightarrow>
          zero_pad 4 (str_int y) @ ''-'' @ zero_pad 2 (str_int m) @ ''-'' @ zero_pad 2 (str_int d))"

definition month_name :: "int \<Rightarrow> string" where
  "month_name m =
     [''January'', ''February'', ''March'', ''April'', ''May'', ''June'', ''July'', ''August'',
      ''September'', ''October'', ''November'', ''December''] ! nat (m - 1)"

definition long_date :: "int \<Rightarrow> string" where
  "long_date days =
     (case civil_from_days days of
        (y, m, d) \<Rightarrow> month_name m @ '' '' @ zero_pad 2 (str_int d) @ '', '' @ str_int y)"

text \<open>
  \<^verbatim>\<open>date.today()\<close> is the date of the local time zone at the moment of the call, and
  \<open>yesterday\<close> in \<^verbatim>\<open>generate_pdf\<close> is the day before it.
\<close>

definition date_today :: "world \<Rightarrow> int" where
  "date_today w = (clock_at_render w + local_utc_offset w) div 86400"

definition yesterday :: "world \<Rightarrow> int" where
  "yesterday w = date_today w - 1"

text \<open>The UTC day that the discovery window covers: the day of \<open>start_ts\<close>.\<close>

definition window_day :: "world \<Rightarrow> int" where
  "window_day w = start_ts (clock_at_discovery w) div 86400"

subsection \<open>The document\<close>

text \<open>
  The document is kept as the two values that \<^verbatim>\<open>generate_pdf\<close> puts into
  \<^verbatim>\<open>DOCUMENT_TEMPLATE\<close>: the table of contents and the list of the sections, which the
  template joins with newlines between fixed markup. The output directory is a map from
  file names to the documents written.
\<close>

record document =
  toc :: string
  sections :: "string list"

type_synonym files = "string \<rightharpoonup> document"

type_synonym entry = "post \<times> article option \<times> json list"

definition toc_entry :: "nat \<Rightarrow> entry \<Rightarrow> string" where
  "toc_entry i e =
     (case e of
        (p, _, _) \<Rightarrow>
          TOC_ENTRY_TEMPLATE (str_nat i) (escape (title p)) (str_int (points p))
            (str_int (num_comments p)) (escape (author p)))"

definition output_path :: "world \<Rightarrow> string" where
  "output_path w = OUTPUT_DIR @ ''/'' @ isoformat (yesterday w) @ ''.pdf''"

text \<open>\<^verbatim>\<open>generate_pdf(entries)\<close>; \<^verbatim>\<open>enumerate(entries, start=1)\<close> numbers the entries.\<close>

definition generate_pdf :: "world \<Rightarrow> files \<Rightarrow> entry list \<Rightarrow> exn + string \<times> files" where
  "generate_pdf w fs entries =
     (let total_count = length entries;
          toc_entries = map (\<lambda>(i, e). toc_entry i e) (enumerate 1 entries);
          toc_html = TOC_TEMPLATE (long_date (yesterday w)) (join_lines toc_entries)
      in and_then
           (all_results
              (map (\<lambda>(i, (p, art, comments)). render_section w p art comments i total_count)
                 (enumerate 1 entries)))
           (\<lambda>rendered.
             case write_pdf w (output_path w) of
               Some e \<Rightarrow> Inl e
             | None \<Rightarrow>
                 Inr (output_path w,
                      fs(output_path w \<mapsto> \<lparr>toc = toc_html, sections = rendered\<rparr>))))"

section \<open>The run\<close>

text \<open>
  One round of the loop of \<^verbatim>\<open>main\<close>: the article is fetched only for a post with a
  URL, the comments for every post, with the default limit.
\<close>

definition post_entry :: "world \<Rightarrow> post \<Rightarrow> exn + entry" where
  "post_entry w p =
     and_then
       (case url p of
          None \<Rightarrow> Inr None
        | Some u \<Rightarrow> if u = [] then Inr None else fetch_article w (url p))
       (\<lambda>art.
         and_then
           (fetch_top_comments (item_lookup w) (completion_time w (post_id p))
              (JInt (post_id p)) MAX_COMMENTS)
           (\<lambda>comments. Inr (p, art, comments)))"

definition collect_entries :: "world \<Rightarrow> post list \<Rightarrow> exn + entry list" where
  "collect_entries w posts = all_results (map (post_entry w) posts)"

text \<open>The body of the \<^verbatim>\<open>try\<close> block of \<^verbatim>\<open>main\<close>.\<close>

definition main_body :: "world \<Rightarrow> files \<Rightarrow> exn + string \<times> files" where
  "main_body w fs =
     and_then (find_top_posts_yesterday w MAX_POSTS) (\<lambda>posts.
       and_then (collect_entries w posts) (generate_pdf w fs))"

text \<open>
  \<^verbatim>\<open>main()\<close>: the exit code of the process and the output directory after the run.
  \<^verbatim>\<open>except Exception\<close> turns every exception but \<open>SystemExit\<close> into exit code 1.
\<close>

definition main :: "world \<Rightarrow> files \<Rightarrow> nat \<times> files" where
  "main w fs =
     (case main_body w fs of
        Inr (path, fs') \<Rightarrow> (0, fs')
      | Inl (SystemExit code) \<Rightarrow> (code, fs)
      | Inl e \<Rightarrow> (1, fs))"

section \<open>Worlds for concrete runs\<close>

text \<open>
  The parts of a world from which the concrete runs below are put together: two posts, a
  discovery index whose first answer times out, pages and parsed fragments given by
  tables, a serialiser, a formatter for timestamps, and a PDF writer that succeeds.
\<close>

definition link_post :: post where
  "link_post =
     \<lparr> post_id = 1, title = ''Tags <b> & more'', url = Some ''https://ex.com/post'',
       story_text = None, points = 120, num_comments = 4, author = ''alice'',
       created_at = ''2024-01-02T10:00:00Z'' \<rparr>"

definition text_post :: post where
  "text_post =
     \<lparr> post_id = 2, title = ''Ask HN: why <now>?'', url = None,
       story_text = Some ''<p>Why?</p>'', points = 80, num_comments = 0, author = ''bob'',
       created_at = ''2024-01-02T11:00:00Z'' \<rparr>"

definition two_hits :: "search_params \<Rightarrow> nat \<Rightarrow> post list attempt" where
  "two_hits params = script [TimedOut, ok_response [link_post, text_post]]"

definition page_table :: "(string \<times> string attempt) list \<Rightarrow> string \<Rightarrow> string attempt" where
  "page_table table u = (case map_of table u of None \<Rightarrow> ConnectionFailed | Some a \<Rightarrow> a)"

definition whole_page :: "string \<Rightarrow> string option" where
  "whole_page page_html = Some page_html"

definition soup_table :: "(string \<times> html list) list \<Rightarrow> string \<Rightarrow> html list" where
  "soup_table table s = (case map_of table s of None \<Rightarrow> [Text s] | Some soup \<Rightarrow> soup)"

fun plain_str :: "html \<Rightarrow> string" where
  "plain_str (Text t) = t"
| "plain_str (Element tag attrs children) =
     ''<'' @ tag @ concat (map (\<lambda>(k, v). '' '' @ k @ ''='' @ v) attrs) @ ''>''
       @ concat (map plain_str children) @ ''</'' @ tag @ ''>''"

definition plain_soup_str :: "html list \<Rightarrow> string" where
  "plain_soup_str soup = concat (map plain_str soup)"

definition minute_string :: "int \<Rightarrow> exn + string" where
  "minute_string t =
     Inr (isoformat (t div 86400) @ '' '' @ zero_pad 2 (str_int (t mod 86400 div 3600))
            @ '':'' @ zero_pad 2 (str_int (t mod 3600 div 60)) @ '' UTC'')"

definition no_repr :: "json \<Rightarrow> string" where
  "no_repr v = ''...''"

definition writer_ok :: "string \<Rightarrow> exn option" where
  "writer_ok path = None"

definition last_first :: "int \<Rightarrow> nat \<Rightarrow> nat" where
  "last_first story = reverse_order"

definition no_files :: files where
  "no_files = Map.empty"

text \<open>The fragment of the example page: a script and three images.\<close>

definition example_soup :: "html list" where
  "example_soup =
     [Element ''div'' []
        [Element ''script'' [] [Text ''track()''],
         Element ''img'' [(''src'', ''/img/a.png''), (''alt'', ''a'')] [],
         Element ''p'' [] [Text ''Body'', Element ''img'' [(''src'', ''https://x.com/a.png'')] []],
         Element ''img'' [(''src'', ''data:image/png;base64,AAAA'')] []]]"

text \<open>
  A run invoked at 2024-01-03 04:30:00 UTC on a machine on UTC: two posts are found, the
  page of the first is fetched and \<^verbatim>\<open>urljoin\<close> answers for the one relative image
  source as the standard library does; the first post has the four replies of
  \<open>replies_service\<close>, the second none.
\<close>

definition example_world :: world where
  "example_world =
     \<lparr> clock_at_discovery = 1704256200,
       clock_at_render = 1704256260,
       local_utc_offset = 0,
       search_index = two_hits,
       web_page = page_table [(''https://ex.com/post'', ok_response ''<html>page</html>'')],
       readability_summary = whole_page,
       soup_of = soup_table [(''<html>page</html>'', example_soup)],
       soup_str = plain_soup_str,
       url_join = url_join_table
         [((''https://ex.com/post'', ''/img/a.png''), Inr ''https://ex.com/img/a.png'')],
       item_lookup = replies_service,
       completion_time = last_first,
       strftime_utc = minute_string,
       container_repr = no_repr,
       write_pdf = writer_ok \<rparr>"

text \<open>
  Two variants of \<open>example_world\<close>. In the first the fragment holds an image whose source
  is empty. In the second it holds an image whose source is a network-path reference with
  an unbalanced bracket, for which \<^verbatim>\<open>urljoin\<close> raises \<open>ValueError\<close>.
\<close>

definition empty_src_world :: world where
  "empty_src_world =
     example_world
       \<lparr> soup_of := soup_table [(''<html>page</html>'', [Element ''img'' [(''src'', '''')] []])],
         url_join := url_join_table [] \<rparr>"

definition bracket_world :: world where
  "bracket_world =
     example_world
       \<lparr> soup_of := soup_table [(''<html>page</html>'', [Element ''img'' [(''src'', ''//['')] []])],
         url_join := url_join_table [((''https://ex.com/post'', ''//[''), Inl ValueError)] \<rparr>"

text \<open>
  Two more variants of \<open>example_world\<close>. In the first the run starts ten seconds before
  midnight UTC of 2024-01-03 and reaches \<^verbatim>\<open>generate_pdf\<close> ten seconds after it. In the
  second the machine's time zone is five hours behind UTC, so that the run of 04:30 UTC
  takes place at 23:30 of the day before, local time.
\<close>

definition midnight_world :: world where
  "midnight_world =
     example_world \<lparr> clock_at_discovery := 1704239990, clock_at_render := 1704240010 \<rparr>"

definition new_york_world :: world where
  "new_york_world = example_world \<lparr> local_utc_offset := - 18000 \<rparr>"





section \<open>Properties of the retry-wrapped fetch client\<close>

lemma upt_three: "[0..<3] = [0, 1, 2]"
  by (simp add: numeral_3_eq_3)

lemma less_three_iff: "(i::nat) < 3 \<longleftrightarrow> i = 0 \<or> i = 1 \<or> i = 2"
  by auto

lemma ex_less_three: "(\<exists>i<(3::nat). P i) \<longleftrightarrow> P 0 \<or> P 1 \<or> P 2"
  by (auto simp: less_three_iff)

lemma all_less_three: "(\<forall>i<(3::nat). P i) \<longleftrightarrow> P 0 \<and> P 1 \<and> P 2"
  by (auto simp: less_three_iff)

lemma all_less_two: "(\<forall>i<(2::nat). P i) \<longleftrightarrow> P 0 \<and> P 1"
  by (auto simp: less_2_cases_iff)

lemma all_less_one: "(\<forall>i<(1::nat). P i) \<longleftrightarrow> P 0"
  by auto

lemma get_checked_Inr_iff:
  "get_checked a = Inr r \<longleftrightarrow>
     a = Responded r \<and> \<not> (400 \<le> status_code r \<and> status_code r < 600)"
  by (cases a) (auto simp: get_checked_def raise_for_status_def)

lemma attempt_failed_iff:
  "attempt_failed a \<longleftrightarrow>
     a = ConnectionFailed \<or> a = TimedOut \<or>
     (\<exists>r. a = Responded r \<and> 400 \<le> status_code r \<and> status_code r < 600)"
  by (cases a) (auto simp: attempt_failed_def get_checked_def raise_for_status_def)

lemma get_checked_raises_RequestException:
  "get_checked a = Inl e \<Longrightarrow> is_RequestException e"
  by (cases a) (auto simp: get_checked_def raise_for_status_def split: if_splits)

lemma request_with_retry_three:
  "fst (request_with_retry get 3) =
     (case get_checked (get 0) of
        Inr r \<Rightarrow> Inr (Some r)
      | Inl _ \<Rightarrow>
         (case get_checked (get 1) of
            Inr r \<Rightarrow> Inr (Some r)
          | Inl _ \<Rightarrow>
             (case get_checked (get 2) of Inr r \<Rightarrow> Inr (Some r) | Inl e \<Rightarrow> Inl e)))"
  by (simp add: request_with_retry_def upt_three split: sum.splits)

lemma request_with_retry_raises:
  "fst (request_with_retry get 3) = Inl e \<Longrightarrow> is_RequestException e"
  unfolding request_with_retry_three
  by (auto split: sum.splits dest: get_checked_raises_RequestException)

lemma request_with_retry_not_None: "fst (request_with_retry get 3) \<noteq> Inr None"
  unfolding request_with_retry_three by (simp split: sum.splits)

text \<open>
  C5, as the code has it. With the default \<open>retries = 3\<close> the client returns a response
  exactly when one of the first three attempts answers with a status outside 400..599 and
  every earlier attempt failed, and it returns that answer. A connection error, a timeout
  and a 4xx or 5xx status are all failures and are retried alike. When all three attempts
  fail, the exception of the third attempt reaches the caller, and otherwise nothing is
  raised.
\<close>

theorem request_with_retry_returns_iff:
  "(fst (request_with_retry get 3) = Inr (Some r) \<longleftrightarrow>
      (\<exists>i<3. get i = Responded r
            \<and> \<not> (400 \<le> status_code r \<and> status_code r < 600)
            \<and> (\<forall>j<i. attempt_failed (get j))))
   \<and> ((\<exists>e. fst (request_with_retry get 3) = Inl e) \<longleftrightarrow> (\<forall>i<3. attempt_failed (get i)))
   \<and> (\<forall>e. fst (request_with_retry get 3) = Inl e \<longrightarrow> get_checked (get 2) = Inl e)"
proof (intro conjI)
  have "fst (request_with_retry get 3) = Inr (Some r) \<longleftrightarrow>
      (\<exists>i<3. get_checked (get i) = Inr r \<and> (\<forall>j<i. attempt_failed (get j)))"
    unfolding request_with_retry_three attempt_failed_def ex_less_three
      all_less_two all_less_one
    by (auto split: sum.splits)
  then show "fst (request_with_retry get 3) = Inr (Some r) \<longleftrightarrow>
      (\<exists>i<3. get i = Responded r
            \<and> \<not> (400 \<le> status_code r \<and> status_code r < 600)
            \<and> (\<forall>j<i. attempt_failed (get j)))"
    by (simp only: get_checked_Inr_iff conj_assoc)
  show "(\<exists>e. fst (request_with_retry get 3) = Inl e) \<longleftrightarrow> (\<forall>i<3. attempt_failed (get i))"
    unfolding request_with_retry_three attempt_failed_def all_less_three
    by (auto split: sum.splits)
  show "\<forall>e. fst (request_with_retry get 3) = Inl e \<longrightarrow> get_checked (get 2) = Inl e"
    unfolding request_with_retry_three
    by (auto split: sum.splits)
qed

text \<open>
  Two failures followed by a success: the successful response is returned.
\<close>

theorem request_with_retry_returns_iff_witness:
  "fst (request_with_retry
     (script [ConnectionFailed,
              Responded \<lparr>status_code = 503, payload = ''busy''\<rparr>,
              Responded \<lparr>status_code = 200, payload = ''ok''\<rparr>]) 3)
   = Inr (Some \<lparr>status_code = 200, payload = ''ok''\<rparr>)"
proof -
  let ?get = "script [ConnectionFailed,
              Responded \<lparr>status_code = 503, payload = ''busy''\<rparr>,
              Responded \<lparr>status_code = 200, payload = ''ok''\<rparr>]"
  let ?r = "\<lparr>status_code = 200, payload = ''ok''\<rparr>"
  have "?get 2 = Responded ?r \<and> \<not> (400 \<le> status_code ?r \<and> status_code ?r < 600)
        \<and> (\<forall>j<2. attempt_failed (?get j))"
    by (simp add: script_def attempt_failed_iff less_Suc_eq numeral_2_eq_2)
  then have "\<exists>i<3. ?get i = Responded ?r
        \<and> \<not> (400 \<le> status_code ?r \<and> status_code ?r < 600)
        \<and> (\<forall>j<i. attempt_failed (?get j))"
    by (intro exI [of _ 2]) simp
  with request_with_retry_returns_iff [of ?get ?r] show ?thesis
    by blast
qed

text \<open>
  The specification asks for a 2xx status. A 304 answer is not one, and it is returned:
  \<^verbatim>\<open>raise_for_status\<close> lets it pass.
\<close>

theorem request_with_retry_non_2xx_returned:
  "fst (request_with_retry (script [Responded \<lparr>status_code = 304, payload = ''body''\<rparr>]) 3)
     = Inr (Some \<lparr>status_code = 304, payload = ''body''\<rparr>)
   \<and> \<not> yields_2xx (script [Responded \<lparr>status_code = 304, payload = ''body''\<rparr>] 0)
   \<and> \<not> yields_2xx (script [Responded \<lparr>status_code = 304, payload = ''body''\<rparr>] 1)
   \<and> \<not> yields_2xx (script [Responded \<lparr>status_code = 304, payload = ''body''\<rparr>] 2)"
  by (simp add: request_with_retry_three script_def get_checked_def raise_for_status_def
      yields_2xx_def is_2xx_def)

section \<open>Properties of the discovery window\<close>

lemma in_queried_window_iff:
  "in_queried_window now t \<longleftrightarrow> start_ts now < t \<and> t < end_ts now"
  by (simp add: in_queried_window_def discovery_params_def)

lemma window_excludes_both_ends:
  "\<not> in_queried_window now (start_ts now) \<and> \<not> in_queried_window now (end_ts now)"
  by (simp add: in_queried_window_iff)

text \<open>
  C4 at a concrete clock reading. For an invocation at 2024-01-03 04:30:00 UTC
  (1704256200) the window runs from 2024-01-02 00:00:00 UTC (1704153600) to
  2024-01-03 00:00:00 UTC (1704240000). A story created in the first second of
  2024-01-02 is not matched by the query; one created a second later is; one created
  at the end bound is not.
\<close>

theorem discovery_window_at_start:
  "start_ts 1704256200 = 1704153600
   \<and> end_ts 1704256200 = 1704240000
   \<and> \<not> in_queried_window 1704256200 1704153600
   \<and> in_queried_window 1704256200 1704153601
   \<and> \<not> in_queried_window 1704256200 1704240000"
  by (simp add: in_queried_window_iff start_ts_def end_ts_def today_utc_def)

section \<open>Properties of comment aggregation\<close>

lemma and_then_Inr_iff:
  "and_then m f = Inr y \<longleftrightarrow> (\<exists>x. m = Inr x \<and> f x = Inr y)"
  by (cases m) (simp_all add: and_then_def)

lemma and_then_Inr [simp]: "and_then (Inr x) f = f x"
  by (simp add: and_then_def)

lemma and_then_Inl [simp]: "and_then (Inl e) f = Inl e"
  by (simp add: and_then_def)

lemma dict_get_Inr_iff:
  "dict_get c key dflt = Inr v \<longleftrightarrow>
     (\<exists>kvs. c = JObj kvs \<and> v = (case map_of kvs key of None \<Rightarrow> dflt | Some w \<Rightarrow> w))"
  by (cases c) auto

lemma keep_item_True_iff:
  "keep_item c = Inr True \<longleftrightarrow>
     (\<exists>kvs. c = JObj kvs \<and> map_of kvs ''type'' = Some (JStr ''comment'')
        \<and> (\<forall>v. map_of kvs ''deleted'' = Some v \<longrightarrow> \<not> truthy v)
        \<and> (\<forall>v. map_of kvs ''dead'' = Some v \<longrightarrow> \<not> truthy v))"
proof (cases c)
  case (JObj kvs)
  then show ?thesis
    by (auto simp: keep_item_def split: option.splits if_splits)
qed (auto simp: keep_item_def)

lemma collect_comments_kept:
  "collect_comments results acc = Inr cs \<Longrightarrow> \<forall>c\<in>set acc. keep_item c = Inr True
     \<Longrightarrow> \<forall>c\<in>set cs. keep_item c = Inr True"
proof (induction results arbitrary: acc)
  case Nil
  then show ?case by simp
next
  case (Cons r rs)
  from Cons.prems(1) obtain item keep where
    "r = Inr item" and keep: "keep_item item = Inr keep"
    and rest: "collect_comments rs (if keep then acc @ [item] else acc) = Inr cs"
    by (simp split: sum.splits)
  from keep Cons.prems(2)
  have "\<forall>c\<in>set (if keep then acc @ [item] else acc). keep_item c = Inr True"
    by simp
  with rest show ?case
    by (rule Cons.IH)
qed

lemma all_results_length: "all_results ms = Inr xs \<Longrightarrow> length xs = length ms"
  by (induction ms arbitrary: xs) (auto split: sum.splits)

lemma py_sort_mset: "py_sort f xs = Inr ys \<Longrightarrow> mset ys = mset xs"
proof -
  assume a: "py_sort f xs = Inr ys"
  then obtain ks where ks: "all_results (map f xs) = Inr ks"
    and ys: "ys = map snd (sort_key fst (zip ks xs))"
    by (auto simp: py_sort_def split: sum.splits)
  from ks have "length ks = length xs" by (auto dest: all_results_length)
  then have "map snd (zip ks xs) = xs" by simp
  moreover have "mset ys = mset (map snd (zip ks xs))"
    unfolding ys by (simp only: mset_map mset_sort)
  ultimately show ?thesis by simp
qed

lemma slice_to_length: "0 \<le> n \<Longrightarrow> int (length (slice_to n xs)) \<le> n"
  by (simp add: slice_to_def)

lemma set_slice_to: "set (slice_to n xs) \<subseteq> set xs"
  by (auto simp: slice_to_def dest: in_set_takeD)


lemma and_then_InrE:
  assumes "and_then m f = Inr y"
  obtains x where "m = Inr x" and "f x = Inr y"
  using assms by (cases m) (simp_all add: and_then_def)


lemma fetch_top_comments_cases:
  assumes "fetch_top_comments lookup finish story_id limit = Inr comments"
  shows "comments = [] \<or>
     (\<exists>ids collected. fetch_batch lookup finish (slice_to (limit + 10) ids) = Inr collected
        \<and> rank_comments ids limit collected = Inr comments)"
proof -
  from assms obtain story where
    s: "(if \<not> truthy story then Inr []
         else and_then (dict_get story ''kids'' (JArr [])) (\<lambda>kid_ids.
           if \<not> truthy kid_ids then Inr []
           else and_then (sequence_items kid_ids) (\<lambda>ids.
             and_then (fetch_batch lookup finish (slice_to (limit + 10) ids))
               (rank_comments ids limit)))) = Inr comments"
    unfolding fetch_top_comments_def by (rule and_then_InrE)
  show ?thesis
  proof (cases "truthy story")
    case False
    with s show ?thesis by simp
  next
    case True
    with s have "and_then (dict_get story ''kids'' (JArr [])) (\<lambda>kid_ids.
           if \<not> truthy kid_ids then Inr []
           else and_then (sequence_items kid_ids) (\<lambda>ids.
             and_then (fetch_batch lookup finish (slice_to (limit + 10) ids))
               (rank_comments ids limit))) = Inr comments"
      by simp
    then obtain kid_ids where
      k: "(if \<not> truthy kid_ids then Inr []
           else and_then (sequence_items kid_ids) (\<lambda>ids.
             and_then (fetch_batch lookup finish (slice_to (limit + 10) ids))
               (rank_comments ids limit))) = Inr comments"
      by (rule and_then_InrE)
    show ?thesis
    proof (cases "truthy kid_ids")
      case False
      with k show ?thesis by simp
    next
      case True
      with k have "and_then (sequence_items kid_ids) (\<lambda>ids.
             and_then (fetch_batch lookup finish (slice_to (limit + 10) ids))
               (rank_comments ids limit)) = Inr comments"
        by simp
      then obtain ids where
        "and_then (fetch_batch lookup finish (slice_to (limit + 10) ids))
               (rank_comments ids limit) = Inr comments"
        by (rule and_then_InrE)
      then obtain collected where
        "fetch_batch lookup finish (slice_to (limit + 10) ids) = Inr collected"
        "rank_comments ids limit collected = Inr comments"
        by (rule and_then_InrE)
      then show ?thesis by blast
    qed
  qed
qed

lemma rank_comments_Inr:
  assumes "rank_comments ids limit collected = Inr comments"
  obtains pm sorted_comments where
    "position_map_from 0 ids Map.empty = Inr pm"
    "py_sort (sort_key_of pm) collected = Inr sorted_comments"
    "comments = slice_to limit sorted_comments"
proof -
  from assms obtain pm where pm: "position_map_from 0 ids Map.empty = Inr pm"
    and "and_then (py_sort (sort_key_of pm) collected) (\<lambda>sorted_comments.
         Inr (slice_to limit sorted_comments)) = Inr comments"
    unfolding rank_comments_def by (rule and_then_InrE)
  then obtain sorted_comments where "py_sort (sort_key_of pm) collected = Inr sorted_comments"
    and "Inr (slice_to limit sorted_comments) = (Inr comments :: exn + json list)"
    by (elim and_then_InrE)
  with pm that show thesis by simp
qed

text \<open>
  C2. Whatever the story and the item-lookup service answer, a call of
  \<^verbatim>\<open>fetch_top_comments\<close> that returns, with a limit that is not negative, returns
  at most \<open>limit\<close> items, and every returned item is an object whose type is
  \<open>comment\<close> and whose \<open>deleted\<close> and \<open>dead\<close> flags are absent or false.
\<close>

theorem fetch_top_comments_bounded_and_filtered:
  assumes "fetch_top_comments lookup finish story_id limit = Inr comments"
    and "0 \<le> limit"
  shows "int (length comments) \<le> limit
     \<and> (\<forall>c\<in>set comments. \<exists>kvs. c = JObj kvs
           \<and> map_of kvs ''type'' = Some (JStr ''comment'')
           \<and> (\<forall>v. map_of kvs ''deleted'' = Some v \<longrightarrow> \<not> truthy v)
           \<and> (\<forall>v. map_of kvs ''dead'' = Some v \<longrightarrow> \<not> truthy v))"
proof -
  from fetch_top_comments_cases [OF assms(1)]
  consider (none) "comments = []"
    | (some) ids collected where
        "fetch_batch lookup finish (slice_to (limit + 10) ids) = Inr collected"
        "rank_comments ids limit collected = Inr comments"
    by blast
  then show ?thesis
  proof cases
    case none
    with assms(2) show ?thesis by simp
  next
    case some
    from some(2) obtain pm sorted_comments where
      sorted: "py_sort (sort_key_of pm) collected = Inr sorted_comments"
      and comments: "comments = slice_to limit sorted_comments"
      by (rule rank_comments_Inr)
    from some(1) have "\<forall>c\<in>set collected. keep_item c = Inr True"
      unfolding fetch_batch_def by (rule collect_comments_kept) simp
    moreover from sorted have "set sorted_comments = set collected"
      by (auto dest: py_sort_mset mset_eq_setD)
    moreover have "set comments \<subseteq> set sorted_comments"
      unfolding comments by (rule set_slice_to)
    ultimately have "\<forall>c\<in>set comments. keep_item c = Inr True"
      by blast
    moreover have "int (length comments) \<le> limit"
      unfolding comments using assms(2) by (rule slice_to_length)
    ultimately show ?thesis
      by (simp add: keep_item_True_iff)
  qed
qed


text \<open>
  The story of \<open>replies_service\<close> with the default limit: four comments come back, all
  of type \<open>comment\<close>.
\<close>

lemma replies_service_default_limit:
  "fetch_top_comments replies_service reverse_order (JInt 1) MAX_COMMENTS =
     Inr [comment_item 10 [101, 102, 103], comment_item 12 [121, 122, 123],
          comment_item 11 [111], comment_item 13 []]"
  by code_simp

theorem fetch_top_comments_bounded_and_filtered_witness:
  "fetch_top_comments replies_service reverse_order (JInt 1) MAX_COMMENTS =
     Inr [comment_item 10 [101, 102, 103], comment_item 12 [121, 122, 123],
          comment_item 11 [111], comment_item 13 []]
   \<and> int (length [comment_item 10 [101, 102, 103], comment_item 12 [121, 122, 123],
          comment_item 11 [111], comment_item 13 []]) \<le> MAX_COMMENTS
   \<and> (\<exists>kvs. comment_item 11 [111] = JObj kvs
         \<and> map_of kvs ''type'' = Some (JStr ''comment''))"
proof -
  have "0 \<le> MAX_COMMENTS"
    by (simp add: MAX_COMMENTS_def)
  with fetch_top_comments_bounded_and_filtered [OF replies_service_default_limit]
  have "int (length [comment_item 10 [101, 102, 103], comment_item 12 [121, 122, 123],
          comment_item 11 [111], comment_item 13 []]) \<le> MAX_COMMENTS
     \<and> (\<forall>c\<in>set [comment_item 10 [101, 102, 103], comment_item 12 [121, 122, 123],
          comment_item 11 [111], comment_item 13 []]. \<exists>kvs. c = JObj kvs
           \<and> map_of kvs ''type'' = Some (JStr ''comment'')
           \<and> (\<forall>v. map_of kvs ''deleted'' = Some v \<longrightarrow> \<not> truthy v)
           \<and> (\<forall>v. map_of kvs ''dead'' = Some v \<longrightarrow> \<not> truthy v))"
    by blast
  then show ?thesis
    using replies_service_default_limit by auto
qed

subsection \<open>The ranking rule\<close>

lemma fetch_item_total: "\<exists>item. fetch_item lookup cid = Inr item"
proof (cases "fst (request_with_retry (lookup cid) 3)")
  case (Inl e)
  then have "is_RequestException e" by (rule request_with_retry_raises)
  with Inl show ?thesis by (simp add: fetch_item_def)
next
  case (Inr r)
  with request_with_retry_not_None [of "lookup cid"] obtain resp where "r = Some resp"
    by (cases r) auto
  with Inr show ?thesis by (simp add: fetch_item_def)
qed

lemma fetch_item_fetched: "fetch_item lookup cid = Inr (fetched lookup cid)"
  using fetch_item_total [of lookup cid] by (auto simp: fetched_def)

lemma mset_as_completed: "mset (as_completed finish n) = mset [0..<n]"
  unfolding as_completed_def by (rule mset_sort)

lemma set_as_completed: "set (as_completed finish n) = {0..<n}"
  by (simp add: as_completed_def)

lemma collect_comments_no_raise:
  assumes "\<forall>item\<in>set items. \<exists>b. keep_item item = Inr b"
  shows "collect_comments (map Inr items) acc = Inr (acc @ filter kept items)"
  using assms
proof (induction items arbitrary: acc)
  case Nil
  then show ?case by simp
next
  case (Cons item items)
  then obtain b where b: "keep_item item = Inr b" by auto
  from Cons.prems have rest: "\<forall>item\<in>set items. \<exists>b. keep_item item = Inr b" by simp
  show ?case
    using b Cons.IH [OF rest] by (simp add: kept_def)
qed

lemma well_formed_reply_keep:
  assumes "well_formed_reply cid item"
  shows "\<exists>b. keep_item item = Inr b"
proof (cases item)
  case (JObj kvs)
  then show ?thesis
    by (auto simp: keep_item_def)
qed (use assms in \<open>auto simp: keep_item_def\<close>)

lemma fetch_batch_well_formed:
  assumes "\<forall>cid\<in>set batch. well_formed_reply cid (fetched lookup cid)"
  shows "fetch_batch lookup finish batch =
     Inr (filter kept (map (\<lambda>i. fetched lookup (batch ! i)) (as_completed finish (length batch))))"
proof -
  let ?items = "map (\<lambda>i. fetched lookup (batch ! i)) (as_completed finish (length batch))"
  have eq: "map (\<lambda>i. fetch_item lookup (batch ! i)) (as_completed finish (length batch))
      = map Inr ?items"
    by (simp add: fetch_item_fetched)
  have "\<forall>item\<in>set ?items. \<exists>b. keep_item item = Inr b"
    using assms by (auto simp: set_as_completed intro: well_formed_reply_keep)
  then have "collect_comments (map Inr ?items) [] = Inr ([] @ filter kept ?items)"
    by (rule collect_comments_no_raise)
  then show ?thesis
    unfolding fetch_batch_def eq by (simp only: append_Nil)
qed

lemma map_nth_upt: "map (\<lambda>i. f (batch ! i)) [0..<length batch] = map f batch"
proof -
  have "map f batch = map f (map ((!) batch) [0..<length batch])"
    by (simp only: map_nth)
  also have "\<dots> = map (\<lambda>i. f (batch ! i)) [0..<length batch]"
    by (simp only: map_map comp_def)
  finally show ?thesis by (rule sym)
qed

lemma mset_fetch_batch_items:
  "mset (map (\<lambda>i. f (batch ! i)) (as_completed finish (length batch))) = mset (map f batch)"
proof -
  have "mset (map (\<lambda>i. f (batch ! i)) (as_completed finish (length batch)))
      = image_mset (\<lambda>i. f (batch ! i)) (mset (as_completed finish (length batch)))"
    by simp
  also have "\<dots> = image_mset (\<lambda>i. f (batch ! i)) (mset [0..<length batch])"
    by (simp only: mset_as_completed)
  also have "\<dots> = mset (map (\<lambda>i. f (batch ! i)) [0..<length batch])"
    by simp
  finally show ?thesis
    by (simp only: map_nth_upt)
qed

lemma position_map_from_distinct:
  assumes "\<forall>cid\<in>set ids. is_JInt cid" and "distinct ids"
  shows "\<exists>pm. position_map_from i ids m = Inr pm
           \<and> (\<forall>j<length ids. pm (ids ! j) = Some (i + j))
           \<and> (\<forall>k. k \<notin> set ids \<longrightarrow> pm k = m k)"
  using assms
proof (induction ids arbitrary: i m)
  case Nil
  then show ?case by simp
next
  case (Cons cid rest)
  from Cons.prems have key: "hash_key cid = Inr cid"
    by (cases cid) simp_all
  from Cons.prems have "\<forall>c\<in>set rest. is_JInt c" and "distinct rest" and fresh: "cid \<notin> set rest"
    by simp_all
  from Cons.IH [OF this(1,2), of "Suc i" "m(cid \<mapsto> i)"] obtain pm where
    pm: "position_map_from (Suc i) rest (m(cid \<mapsto> i)) = Inr pm"
    and pos: "\<forall>j<length rest. pm (rest ! j) = Some (Suc i + j)"
    and other: "\<forall>k. k \<notin> set rest \<longrightarrow> pm k = (m(cid \<mapsto> i)) k"
    by blast
  have "position_map_from i (cid # rest) m = Inr pm"
    using key pm by simp
  moreover have "\<forall>j<length (cid # rest). pm ((cid # rest) ! j) = Some (i + j)"
  proof (intro allI impI)
    fix j assume "j < length (cid # rest)"
    then show "pm ((cid # rest) ! j) = Some (i + j)"
      using pos other fresh by (cases j) simp_all
  qed
  moreover have "\<forall>k. k \<notin> set (cid # rest) \<longrightarrow> pm k = m k"
    using other by simp
  ultimately show ?case by blast
qed

lemma index_of_nth_distinct:
  "distinct xs \<Longrightarrow> j < length xs \<Longrightarrow> index_of (xs ! j) xs = j"
proof (induction xs arbitrary: j)
  case Nil
  then show ?case by simp
next
  case (Cons x xs)
  then show ?case
    by (cases j) (auto simp: index_of_def)
qed

lemma kept_well_formed_reply:
  assumes "well_formed_reply cid c" and "kept c"
  obtains kvs where "c = JObj kvs" and "map_of kvs ''id'' = Some cid"
    and "map_of kvs ''kids'' = None \<or> (\<exists>ks. map_of kvs ''kids'' = Some (JArr ks))"
proof (cases c)
  case (JObj kvs)
  with assms(1) have "map_of kvs ''id'' = Some cid" by simp
  moreover from assms(1) JObj
  have "map_of kvs ''kids'' = None \<or> (\<exists>ks. map_of kvs ''kids'' = Some (JArr ks))"
    by (auto split: option.splits json.splits)
  ultimately show ?thesis using JObj that by blast
qed (use assms in \<open>simp_all add: kept_def keep_item_def\<close>)

lemma candidate_key:
  assumes "well_formed_reply cid c" and "kept c" and "pm cid = Some j" and "is_JInt cid"
  shows "sort_key_of pm c = Inr (- int (reply_count c), int j)"
proof -
  from assms(1,2) obtain kvs where c: "c = JObj kvs" and cid: "map_of kvs ''id'' = Some cid"
    and kids: "map_of kvs ''kids'' = None \<or> (\<exists>ks. map_of kvs ''kids'' = Some (JArr ks))"
    by (rule kept_well_formed_reply)
  from assms(4) have key: "hash_key cid = Inr cid"
    by (cases cid) simp_all
  from kids show ?thesis
  proof
    assume "map_of kvs ''kids'' = None"
    then show ?thesis
      using c cid key assms(3) by (simp add: sort_key_of_def reply_count_def)
  next
    assume "\<exists>ks. map_of kvs ''kids'' = Some (JArr ks)"
    then obtain ks where "map_of kvs ''kids'' = Some (JArr ks)" ..
    then show ?thesis
      using c cid key assms(3) by (simp add: sort_key_of_def reply_count_def)
  qed
qed

lemma candidate_position:
  assumes "well_formed_reply (ids ! j) c" and "kept c" and "distinct ids" and "j < length ids"
  shows "original_position ids c = j"
proof -
  from assms(1,2) obtain kvs where "c = JObj kvs" and "map_of kvs ''id'' = Some (ids ! j)"
    by (rule kept_well_formed_reply)
  then show ?thesis
    using assms(3,4) by (simp add: original_position_def index_of_nth_distinct)
qed

lemma all_results_total:
  "\<forall>x\<in>set xs. f x = Inr (g x) \<Longrightarrow> all_results (map f xs) = Inr (map g xs)"
  by (induction xs) simp_all

lemma insort_key_fst_pair:
  "insort_key fst (g x, x) (map (\<lambda>y. (g y, y)) ys) = map (\<lambda>y. (g y, y)) (insort_key g x ys)"
  by (induction ys) simp_all

lemma sort_key_fst_pair:
  "sort_key fst (map (\<lambda>y. (g y, y)) xs) = map (\<lambda>y. (g y, y)) (sort_key g xs)"
  by (induction xs) (simp_all add: insort_key_fst_pair)

lemma py_sort_total:
  assumes "\<forall>x\<in>set xs. f x = Inr (g x)"
  shows "py_sort f xs = Inr (sort_key g xs)"
proof -
  have "zip (map g xs) xs = map (\<lambda>y. (g y, y)) xs"
    by (induction xs) simp_all
  then have "map snd (sort_key fst (zip (map g xs) xs)) = sort_key g xs"
    by (simp add: sort_key_fst_pair comp_def)
  with all_results_total [OF assms] show ?thesis
    by (simp add: py_sort_def)
qed

lemma sort_key_permutation:
  assumes "mset xs = mset ys" and "inj_on g (set xs)"
  shows "sort_key g xs = sort_key g ys"
proof (rule sort_key_inj_key_eq)
  show "mset xs = mset (sort_key g ys)" using assms(1) by simp
  show "inj_on g (set xs)" by fact
  show "sorted (map g (sort_key g ys))" by (rule sorted_sort_key)
qed

lemma slice_to_take: "\<exists>k. slice_to n xs = take k xs"
  by (auto simp: slice_to_def)

text \<open>
  C3. Let the story's lookup yield an object whose reply identifiers \<open>ids\<close> are distinct
  numbers, and let every reply's lookup yield nothing or an object that carries the
  identifier asked for and a list of reply identifiers, if any. Then there is one ranked
  list of the candidates, the same for every order of completion of the fetches, of which
  \<^verbatim>\<open>fetch_top_comments\<close> returns the first \<open>limit\<close> items: it holds exactly the
  fetched items of the batch that pass the filter, and of any two of its items the earlier
  one has more reply identifiers of its own, or as many and the smaller position in \<open>ids\<close>.
\<close>

theorem fetch_top_comments_ranking:
  assumes story: "fetch_item lookup story_id = Inr (JObj kvs)"
    and kids: "map_of kvs ''kids'' = Some (JArr ids)"
    and dist: "distinct ids"
    and ints: "\<forall>cid\<in>set ids. is_JInt cid"
    and wf: "\<forall>cid\<in>set ids. well_formed_reply cid (fetched lookup cid)"
  shows "\<exists>ranked.
      (\<forall>finish. fetch_top_comments lookup finish story_id limit = Inr (slice_to limit ranked))
    \<and> mset ranked = mset (candidates lookup ids limit)
    \<and> (\<forall>i j. i < j \<and> j < length ranked \<longrightarrow>
          reply_count (ranked ! j) < reply_count (ranked ! i)
        \<or> (reply_count (ranked ! j) = reply_count (ranked ! i)
           \<and> original_position ids (ranked ! i) < original_position ids (ranked ! j)))"
proof -
  define batch where "batch = slice_to (limit + 10) ids"
  define g where "g = (\<lambda>c. (- int (reply_count c), int (original_position ids c)))"
  define cands where "cands = candidates lookup ids limit"
  define ranked where "ranked = sort_key g cands"
  have cands: "cands = filter kept (map (fetched lookup) batch)"
    by (simp add: cands_def candidates_def batch_def)
  obtain k where "batch = take k ids"
    unfolding batch_def using slice_to_take by blast
  then have batch_sub: "set batch \<subseteq> set ids"
    by (auto dest: in_set_takeD)
  have wf_batch: "\<forall>cid\<in>set batch. well_formed_reply cid (fetched lookup cid)"
    using wf batch_sub by blast
  obtain pm where pm: "position_map_from 0 ids Map.empty = Inr pm"
    and pos: "\<forall>j<length ids. pm (ids ! j) = Some j"
    using position_map_from_distinct [OF ints dist, of 0 Map.empty] by auto
  have from_list: "\<exists>j<length ids. c = fetched lookup (ids ! j) \<and> kept c" if "c \<in> set cands" for c
  proof -
    from that obtain cid where "cid \<in> set batch" and c: "c = fetched lookup cid" and "kept c"
      by (auto simp: cands)
    from \<open>cid \<in> set batch\<close> batch_sub have "cid \<in> set ids" by blast
    then obtain j where "j < length ids" and "cid = ids ! j"
      by (auto simp: in_set_conv_nth)
    with c \<open>kept c\<close> show ?thesis by blast
  qed
  have key: "sort_key_of pm c = Inr (g c)" if "c \<in> set cands" for c
  proof -
    from from_list [OF that] obtain j where j: "j < length ids"
      and c: "c = fetched lookup (ids ! j)" and "kept c"
      by blast
    from j wf c have w: "well_formed_reply (ids ! j) c" by simp
    from j ints have "is_JInt (ids ! j)" by simp
    with w \<open>kept c\<close> pos j have "sort_key_of pm c = Inr (- int (reply_count c), int j)"
      by (intro candidate_key) simp_all
    moreover from w \<open>kept c\<close> dist j have "original_position ids c = j"
      by (rule candidate_position)
    ultimately show ?thesis by (simp add: g_def)
  qed
  have inj: "inj_on g (set cands)"
  proof (rule inj_onI)
    fix c c' assume "c \<in> set cands" and "c' \<in> set cands" and eq: "g c = g c'"
    from from_list [OF this(1)] obtain j where j: "j < length ids"
      and c: "c = fetched lookup (ids ! j)" and kc: "kept c" by blast
    from from_list [OF \<open>c' \<in> set cands\<close>] obtain j' where j': "j' < length ids"
      and c': "c' = fetched lookup (ids ! j')" and kc': "kept c'" by blast
    from j wf c have "well_formed_reply (ids ! j) c" by simp
    from this kc dist j have "original_position ids c = j" by (rule candidate_position)
    moreover from j' wf c' have "well_formed_reply (ids ! j') c'" by simp
    from this kc' dist j' have "original_position ids c' = j'" by (rule candidate_position)
    moreover from eq have "original_position ids c = original_position ids c'"
      by (simp add: g_def)
    ultimately have "j = j'" by metis
    with c c' show "c = c'" by (simp only:)
  qed
  have run: "fetch_top_comments lookup finish story_id limit = Inr (slice_to limit ranked)"
    for finish
  proof (cases "ids = []")
    case True
    then have "ranked = []"
      by (simp add: ranked_def cands batch_def slice_to_def)
    moreover from story kids True
    have "fetch_top_comments lookup finish story_id limit = Inr []"
      by (auto simp: fetch_top_comments_def)
    ultimately show ?thesis by (simp add: slice_to_def)
  next
    case False
    define collected where "collected =
      filter kept (map (\<lambda>i. fetched lookup (batch ! i)) (as_completed finish (length batch)))"
    have batch: "fetch_batch lookup finish batch = Inr collected"
      unfolding collected_def using wf_batch by (rule fetch_batch_well_formed)
    have m: "mset collected = mset cands"
      unfolding collected_def cands by (simp only: mset_filter mset_fetch_batch_items)
    then have s: "set collected = set cands"
      by (rule mset_eq_setD)
    have "py_sort (sort_key_of pm) collected = Inr (sort_key g collected)"
      by (rule py_sort_total) (simp add: s key)
    moreover have "sort_key g collected = ranked"
      unfolding ranked_def using m inj by (intro sort_key_permutation) (simp_all add: s)
    ultimately have "rank_comments ids limit collected = Inr (slice_to limit ranked)"
      using pm by (simp add: rank_comments_def)
    with batch have "and_then (fetch_batch lookup finish (slice_to (limit + 10) ids))
        (rank_comments ids limit) = Inr (slice_to limit ranked)"
      by (simp add: batch_def)
    with story kids False show ?thesis
      by (auto simp: fetch_top_comments_def)
  qed
  have "mset ranked = mset (candidates lookup ids limit)"
    by (simp add: ranked_def cands_def)
  moreover have "reply_count (ranked ! j) < reply_count (ranked ! i)
        \<or> (reply_count (ranked ! j) = reply_count (ranked ! i)
           \<and> original_position ids (ranked ! i) < original_position ids (ranked ! j))"
    if "i < j" and "j < length ranked" for i j
  proof -
    have "distinct batch"
      using dist \<open>batch = take k ids\<close> by simp
    have "inj_on (fetched lookup) (set (filter (kept \<circ> fetched lookup) batch))"
    proof (rule inj_onI)
      fix x y
      assume x: "x \<in> set (filter (kept \<circ> fetched lookup) batch)"
        and y: "y \<in> set (filter (kept \<circ> fetched lookup) batch)"
        and eq: "fetched lookup x = fetched lookup y"
      from x batch_sub have "x \<in> set ids" by auto
      then obtain j where j: "j < length ids" "x = ids ! j"
        by (auto simp: in_set_conv_nth)
      from y batch_sub have "y \<in> set ids" by auto
      then obtain j' where j': "j' < length ids" "y = ids ! j'"
        by (auto simp: in_set_conv_nth)
      from j wf have "well_formed_reply (ids ! j) (fetched lookup x)" by simp
      moreover from x have "kept (fetched lookup x)" by simp
      ultimately have px: "original_position ids (fetched lookup x) = j"
        using dist j(1) by (rule candidate_position)
      from j' wf have "well_formed_reply (ids ! j') (fetched lookup y)" by simp
      moreover from y have "kept (fetched lookup y)" by simp
      ultimately have py: "original_position ids (fetched lookup y) = j'"
        using dist j'(1) by (rule candidate_position)
      from px py eq have "j = j'" by metis
      with j(2) j'(2) show "x = y" by (simp only:)
    qed
    with \<open>distinct batch\<close> have "distinct cands"
      unfolding cands filter_map by (simp add: distinct_map)
    then have "distinct (map g ranked)"
      using inj by (simp add: distinct_map ranked_def)
    moreover have "sorted (map g ranked)"
      unfolding ranked_def by (rule sorted_sort_key)
    ultimately have "sorted_wrt (<) (map g ranked)"
      by (simp add: strict_sorted_iff)
    with that have "map g ranked ! i < map g ranked ! j"
      by (simp add: sorted_wrt_iff_nth_less)
    with that have "g (ranked ! i) < g (ranked ! j)"
      by simp
    then show ?thesis
      by (auto simp: g_def)
  qed
  ultimately show ?thesis
    using run by blast
qed

lemma replies_service_story:
  "fetch_item replies_service (JInt 1) =
     Inr (JObj [(''id'', JInt 1), (''type'', JStr ''story''),
                (''kids'', JArr [JInt 10, JInt 11, JInt 12, JInt 13])])"
  by code_simp

lemma replies_service_well_formed:
  "\<forall>cid\<in>set [JInt 10, JInt 11, JInt 12, JInt 13].
     well_formed_reply cid (fetched replies_service cid)"
  by code_simp

lemma replies_service_in_submission_order:
  "fetch_top_comments replies_service submission_order (JInt 1) 2 =
     Inr [comment_item 10 [101, 102, 103], comment_item 12 [121, 122, 123]]"
  by code_simp

text \<open>
  The example of the specification: reply counts 3, 1, 3, 0 at positions 0 to 3. The top
  two are the candidates at positions 0 and 2, in that order, for every order of
  completion.
\<close>

theorem fetch_top_comments_ranking_witness:
  "\<forall>finish. fetch_top_comments replies_service finish (JInt 1) 2 =
     Inr [comment_item 10 [101, 102, 103], comment_item 12 [121, 122, 123]]"
proof -
  have kids: "map_of [(''id'', JInt 1), (''type'', JStr ''story''),
                (''kids'', JArr [JInt 10, JInt 11, JInt 12, JInt 13])] ''kids''
      = Some (JArr [JInt 10, JInt 11, JInt 12, JInt 13])"
    by simp
  have dist: "distinct [JInt 10, JInt 11, JInt 12, JInt 13]"
    by simp
  have ints: "\<forall>cid\<in>set [JInt 10, JInt 11, JInt 12, JInt 13]. is_JInt cid"
    by simp
  from fetch_top_comments_ranking
    [OF replies_service_story kids dist ints replies_service_well_formed, of 2]
  obtain ranked where
    all: "\<forall>finish. fetch_top_comments replies_service finish (JInt 1) 2 = Inr (slice_to 2 ranked)"
    by blast
  from all replies_service_in_submission_order
  have "slice_to 2 ranked = [comment_item 10 [101, 102, 103], comment_item 12 [121, 122, 123]]"
    by simp
  with all show ?thesis by simp
qed

section \<open>Properties of the run\<close>

lemma all_results_nth:
  "all_results ms = Inr xs \<Longrightarrow> length xs = length ms \<and> (\<forall>i<length ms. ms ! i = Inr (xs ! i))"
proof (induction ms arbitrary: xs)
  case Nil
  then show ?case by simp
next
  case (Cons m ms)
  from Cons.prems obtain x ys where m: "m = Inr x" and ys: "all_results ms = Inr ys"
    and xs: "xs = x # ys"
    by (auto split: sum.splits)
  from Cons.IH [OF ys] have len: "length ys = length ms"
    and nth: "\<forall>i<length ms. ms ! i = Inr (ys ! i)"
    by simp_all
  have "\<forall>i<length (m # ms). (m # ms) ! i = Inr (xs ! i)"
  proof (intro allI impI)
    fix i assume "i < length (m # ms)"
    then show "(m # ms) ! i = Inr (xs ! i)"
      using m xs nth by (cases i) simp_all
  qed
  with len xs show ?case by simp
qed



lemma generate_pdf_Inr:
  assumes "generate_pdf w fs entries = Inr (path, fs')"
  obtains rendered where
    "all_results
       (map (\<lambda>(i, (p, art, comments)). render_section w p art comments i (length entries))
          (enumerate 1 entries)) = Inr rendered"
    and "write_pdf w (output_path w) = None"
    and "path = output_path w"
    and "fs' = fs(output_path w \<mapsto> \<lparr>toc = TOC_TEMPLATE (long_date (yesterday w))
           (join_lines (map (\<lambda>(i, e). toc_entry i e) (enumerate 1 entries))),
         sections = rendered\<rparr>)"
proof -
  from assms obtain rendered where r: "all_results
       (map (\<lambda>(i, (p, art, comments)). render_section w p art comments i (length entries))
          (enumerate 1 entries)) = Inr rendered"
    and rest: "(case write_pdf w (output_path w) of
               Some e \<Rightarrow> Inl e
             | None \<Rightarrow>
                 Inr (output_path w,
                      fs(output_path w \<mapsto> \<lparr>toc = TOC_TEMPLATE (long_date (yesterday w))
           (join_lines (map (\<lambda>(i, e). toc_entry i e) (enumerate 1 entries))),
           sections = rendered\<rparr>))) = Inr (path, fs')"
    unfolding generate_pdf_def Let_def by (rule and_then_InrE)
  from rest have none: "write_pdf w (output_path w) = None"
    by (cases "write_pdf w (output_path w)") simp_all
  from rest have "path = output_path w"
    and "fs' = fs(output_path w \<mapsto> \<lparr>toc = TOC_TEMPLATE (long_date (yesterday w))
           (join_lines (map (\<lambda>(i, e). toc_entry i e) (enumerate 1 entries))),
         sections = rendered\<rparr>)"
    unfolding none by auto
  with r none show thesis by (rule that)
qed





section \<open>Properties of article extraction\<close>

lemma map_of_replace:
  "key \<in> fst ` set attrs \<Longrightarrow>
     map_of (map (\<lambda>(k, old). if k = key then (k, v) else (k, old)) attrs) key = Some v"
proof (induction attrs)
  case Nil
  then show ?case by simp
next
  case (Cons a attrs)
  obtain k old where a: "a = (k, old)" by (cases a)
  show ?case
  proof (cases "k = key")
    case True
    with a show ?thesis by simp
  next
    case False
    with Cons.prems a have "key \<in> fst ` set attrs" by auto
    with Cons.IH False a show ?thesis by simp
  qed
qed

lemma map_of_set_attr: "map_of (set_attr key v attrs) key = Some v"
proof (cases "key \<in> fst ` set attrs")
  case True
  then show ?thesis
    by (simp add: set_attr_def map_of_replace)
next
  case False
  then have "map_of attrs key = None"
    by (simp add: map_of_eq_None_iff)
  with False show ?thesis
    by (simp add: set_attr_def map_add_def)
qed

lemma rewrite_src_sources:
  assumes "rewrite_src resolve ''img'' attrs = Inr attrs'"
  shows "src_rewritten resolve (map_of attrs ''src'') (map_of attrs' ''src'')"
proof (cases "map_of attrs ''src''")
  case None
  with assms show ?thesis
    by (simp add: rewrite_src_def src_rewritten_def)
next
  case (Some src)
  show ?thesis
  proof (cases "needs_resolving src")
    case True
    with assms Some obtain absolute where "resolve src = Inr absolute"
      and "attrs' = set_attr ''src'' absolute attrs"
      by (auto simp: rewrite_src_def split: sum.splits)
    with Some True show ?thesis
      by (simp add: src_rewritten_def map_of_set_attr)
  next
    case False
    with assms Some show ?thesis
      by (simp add: rewrite_src_def src_rewritten_def)
  qed
qed

lemma all_results_concat_rel:
  assumes "all_results (map f xs) = Inr ys"
    and "\<And>x y. x \<in> set xs \<Longrightarrow> f x = Inr y \<Longrightarrow> list_all2 R (g x) (g y)"
  shows "list_all2 R (concat (map g xs)) (concat (map g ys))"
  using assms
proof (induction xs arbitrary: ys)
  case Nil
  then show ?case by simp
next
  case (Cons x xs)
  from Cons.prems(1) obtain y zs where y: "f x = Inr y" and zs: "all_results (map f xs) = Inr zs"
    and ys: "ys = y # zs"
    by (auto split: sum.splits)
  from y Cons.prems(2) have "list_all2 R (g x) (g y)" by simp
  moreover from zs Cons.prems(2) have "list_all2 R (concat (map g xs)) (concat (map g zs))"
    by (intro Cons.IH) simp_all
  ultimately show ?case
    unfolding ys by (simp add: list_all2_appendI)
qed

lemma rewrite_images_sources:
  "rewrite_images resolve h = Inr h'
     \<Longrightarrow> list_all2 (src_rewritten resolve) (image_sources h) (image_sources h')"
proof (induction resolve h arbitrary: h' rule: rewrite_images.induct)
  case (1 resolve t)
  then show ?case by auto
next
  case (2 resolve tag attrs children)
  from "2.prems" obtain attrs' children' where
    attrs: "rewrite_src resolve tag attrs = Inr attrs'"
    and children: "all_results (map (rewrite_images resolve) children) = Inr children'"
    and h': "h' = Element tag attrs' children'"
    by (auto split: sum.splits)
  from children have rest: "list_all2 (src_rewritten resolve)
      (concat (map image_sources children)) (concat (map image_sources children'))"
    by (rule all_results_concat_rel) (rule "2.IH" [OF attrs])
  show ?case
  proof (cases "tag = ''img''")
    case True
    with attrs have "src_rewritten resolve (map_of attrs ''src'') (map_of attrs' ''src'')"
      by (simp add: rewrite_src_sources)
    with rest True show ?thesis
      unfolding h' by simp
  next
    case False
    with rest show ?thesis
      unfolding h' by simp
  qed
qed

lemma clean_soup_sources:
  assumes "clean_soup resolve soup = Inr soup'"
  shows "list_all2 (src_rewritten resolve)
     (concat (map image_sources (concat (map (decompose_tags [''script'', ''style'', ''iframe'']) soup))))
     (concat (map image_sources soup'))"
  using assms unfolding clean_soup_def
  by (rule all_results_concat_rel) (rule rewrite_images_sources)

lemma fetch_article_Some:
  assumes "fetch_article w (Some u) = Inr (Some a)"
  obtains resp summary_html soup' where
    "get_checked (web_page w u) = Inr resp"
    and "readability_summary w (payload resp) = Some summary_html"
    and "clean_soup (url_join w u) (soup_of w summary_html) = Inr soup'"
    and "content_html a = soup_str w soup'"
proof (cases "u = []")
  case True
  with assms show ?thesis by (simp add: fetch_article_def)
next
  case False
  show ?thesis
  proof (cases "get_checked (web_page w u)")
    case (Inl e)
    with assms False show ?thesis
      by (simp add: fetch_article_def split: if_splits)
  next
    case (Inr resp)
    show ?thesis
    proof (cases "readability_summary w (payload resp)")
      case None
      with assms False Inr show ?thesis by (simp add: fetch_article_def)
    next
      case (Some summary_html)
      show ?thesis
      proof (cases "clean_soup (url_join w u) (soup_of w summary_html)")
        case (Inl e)
        with assms False Inr Some show ?thesis by (simp add: fetch_article_def)
      next
        case soup: (Inr soup')
        with assms False Inr Some have "content_html a = soup_str w soup'"
          by (auto simp: fetch_article_def)
        with Inr Some soup show ?thesis by (rule that)
      qed
    qed
  qed
qed

lemma src_rewritten_explicit:
  "src_rewritten resolve =
     (\<lambda>old new. case old of
        None \<Rightarrow> new = None
      | Some src \<Rightarrow>
          if src \<noteq> [] \<and> \<not> startswith src [''http://'', ''https://'', ''data:'']
          then (\<exists>absolute. resolve src = Inr absolute \<and> new = Some absolute)
          else new = Some src)"
  by (intro ext) (simp add: src_rewritten_def needs_resolving_def split: option.splits)

text \<open>
  C7, as the code has it. When \<^verbatim>\<open>fetch_article\<close> returns an article, its content is the
  serialised fragment that is left of the readability summary of the page after the
  \<open>script\<close>, \<open>style\<close> and \<open>iframe\<close> elements are gone, and the images of that fragment
  are, one by one and in order, the images of the stripped summary with these sources: an
  image without a source has none; a source that is not empty and starts with none of
  \<open>http://\<close>, \<open>https://\<close> and \<open>data:\<close> is replaced by what \<^verbatim>\<open>urljoin\<close> answers for the
  page's URL and that source; an empty source and a source with one of the three prefixes
  stay as they are.
\<close>

theorem fetch_article_image_sources:
  assumes "fetch_article w (Some u) = Inr (Some a)"
  shows "\<exists>resp summary_html soup'.
      get_checked (web_page w u) = Inr resp
    \<and> readability_summary w (payload resp) = Some summary_html
    \<and> clean_soup (url_join w u) (soup_of w summary_html) = Inr soup'
    \<and> content_html a = soup_str w soup'
    \<and> list_all2
        (\<lambda>old new. case old of
           None \<Rightarrow> new = None
         | Some src \<Rightarrow>
             if src \<noteq> [] \<and> \<not> startswith src [''http://'', ''https://'', ''data:'']
             then (\<exists>absolute. url_join w u src = Inr absolute \<and> new = Some absolute)
             else new = Some src)
        (concat (map image_sources
           (concat (map (decompose_tags [''script'', ''style'', ''iframe''])
              (soup_of w summary_html)))))
        (concat (map image_sources soup'))"
proof -
  from assms obtain resp summary_html soup' where
    "get_checked (web_page w u) = Inr resp"
    and "readability_summary w (payload resp) = Some summary_html"
    and soup: "clean_soup (url_join w u) (soup_of w summary_html) = Inr soup'"
    and "content_html a = soup_str w soup'"
    by (rule fetch_article_Some)
  moreover from soup have "list_all2 (src_rewritten (url_join w u))
        (concat (map image_sources
           (concat (map (decompose_tags [''script'', ''style'', ''iframe''])
              (soup_of w summary_html)))))
        (concat (map image_sources soup'))"
    by (rule clean_soup_sources)
  ultimately show ?thesis
    unfolding src_rewritten_explicit by blast
qed

lemma example_world_article:
  "fetch_article example_world (Some ''https://ex.com/post'') =
     Inr (Some \<lparr>content_html = ''<div><img src=https://ex.com/img/a.png alt=a></img><p>Body<img src=https://x.com/a.png></img></p><img src=data:image/png;base64,AAAA></img></div>''\<rparr>)"
  by code_simp

lemma example_world_page:
  "get_checked (web_page example_world ''https://ex.com/post'') =
     Inr \<lparr>status_code = 200, payload = ''<html>page</html>''\<rparr>"
  by code_simp

lemma example_world_summary:
  "readability_summary example_world ''<html>page</html>'' = Some ''<html>page</html>''"
  by code_simp

lemma example_world_soup: "soup_of example_world ''<html>page</html>'' = example_soup"
  by code_simp

lemma example_soup_sources:
  "concat (map image_sources
     (concat (map (decompose_tags [''script'', ''style'', ''iframe'']) example_soup))) =
   [Some ''/img/a.png'', Some ''https://x.com/a.png'', Some ''data:image/png;base64,AAAA'']"
  by code_simp

lemma example_world_url_join:
  "url_join example_world ''https://ex.com/post'' ''/img/a.png'' = Inr ''https://ex.com/img/a.png''"
  by code_simp

lemma example_prefixes:
  "\<not> startswith ''/img/a.png'' [''http://'', ''https://'', ''data:'']"
  "startswith ''https://x.com/a.png'' [''http://'', ''https://'', ''data:'']"
  "startswith ''data:image/png;base64,AAAA'' [''http://'', ''https://'', ''data:'']"
  by code_simp+

text \<open>
  The example of the specification: on the page \<open>https://ex.com/post\<close> the source
  \<open>/img/a.png\<close> becomes \<open>https://ex.com/img/a.png\<close>, and the sources
  \<open>https://x.com/a.png\<close> and \<open>data:image/png;base64,AAAA\<close> stay.
\<close>

theorem fetch_article_image_sources_witness:
  "\<exists>a soup'.
      fetch_article example_world (Some ''https://ex.com/post'') = Inr (Some a)
    \<and> clean_soup (url_join example_world ''https://ex.com/post'') example_soup = Inr soup'
    \<and> content_html a = soup_str example_world soup'
    \<and> concat (map image_sources soup') =
        [Some ''https://ex.com/img/a.png'', Some ''https://x.com/a.png'',
         Some ''data:image/png;base64,AAAA'']"
proof -
  from fetch_article_image_sources [OF example_world_article]
  obtain resp summary_html soup' where
    resp: "get_checked (web_page example_world ''https://ex.com/post'') = Inr resp"
    and summary: "readability_summary example_world (payload resp) = Some summary_html"
    and soup: "clean_soup (url_join example_world ''https://ex.com/post'')
                 (soup_of example_world summary_html) = Inr soup'"
    and html: "content_html \<lparr>content_html = ''<div><img src=https://ex.com/img/a.png alt=a></img><p>Body<img src=https://x.com/a.png></img></p><img src=data:image/png;base64,AAAA></img></div>''\<rparr>
        = soup_str example_world soup'"
    and rel: "list_all2
        (\<lambda>old new. case old of
           None \<Rightarrow> new = None
         | Some src \<Rightarrow>
             if src \<noteq> [] \<and> \<not> startswith src [''http://'', ''https://'', ''data:'']
             then (\<exists>absolute. url_join example_world ''https://ex.com/post'' src = Inr absolute
                     \<and> new = Some absolute)
             else new = Some src)
        (concat (map image_sources
           (concat (map (decompose_tags [''script'', ''style'', ''iframe''])
              (soup_of example_world summary_html)))))
        (concat (map image_sources soup'))"
    by blast
  from resp example_world_page have "payload resp = ''<html>page</html>''"
    by auto
  with summary example_world_summary have "summary_html = ''<html>page</html>''"
    by simp
  then have s: "soup_of example_world summary_html = example_soup"
    by (simp only: example_world_soup)
  from rel have "concat (map image_sources soup') =
        [Some ''https://ex.com/img/a.png'', Some ''https://x.com/a.png'',
         Some ''data:image/png;base64,AAAA'']"
    unfolding s example_soup_sources
    by (auto simp: list_all2_Cons1 example_prefixes example_world_url_join)
  with soup html example_world_article show ?thesis
    unfolding s by blast
qed

text \<open>
  An image with an empty source: the source is not absolute, the loop skips it, and the
  article is returned with the source still empty.
\<close>

theorem empty_image_source_not_resolved:
  "fetch_article empty_src_world (Some ''https://ex.com/post'') =
     Inr (Some \<lparr>content_html = ''<img src=></img>''\<rparr>)
   \<and> clean_soup (url_join empty_src_world ''https://ex.com/post'')
       [Element ''img'' [(''src'', '''')] []] = Inr [Element ''img'' [(''src'', '''')] []]
   \<and> \<not> startswith '''' [''http://'', ''https://'', ''data:'']"
  by code_simp

lemma fetch_article_fetch_fails:
  assumes "attempt_failed (web_page w u)"
  shows "fetch_article w (Some u) = Inr None"
proof -
  from assms obtain e where e: "get_checked (web_page w u) = Inl e"
    by (auto simp: attempt_failed_def split: sum.splits)
  then have "is_RequestException e"
    by (rule get_checked_raises_RequestException)
  with e show ?thesis
    by (simp add: fetch_article_def)
qed

lemma fetch_article_reduction_raises:
  assumes "get_checked (web_page w u) = Inr resp"
    and "readability_summary w (payload resp) = None"
  shows "fetch_article w (Some u) = Inr None"
  using assms by (simp add: fetch_article_def)

lemma sublist_drop_head: "sublist x ys \<Longrightarrow> sublist x (a @ ys)"
  by (auto simp: sublist_def) (metis append.assoc)

lemma SECTION_TEMPLATE_article: "sublist (article_section_field f) (SECTION_TEMPLATE f)"
  unfolding SECTION_TEMPLATE_def
  by (rule sublist_append_rightI | rule sublist_drop_head)+

lemma render_section_Inr:
  assumes "render_section w p art comments rank total_count = Inr s"
  obtains blocks where "all_results (map (comment_block w) comments) = Inr blocks"
    and "s = SECTION_TEMPLATE (fields_of p art comments blocks rank total_count)"
proof -
  from assms obtain blocks where "all_results (map (comment_block w) comments) = Inr blocks"
    and "Inr (SECTION_TEMPLATE (fields_of p art comments blocks rank total_count))
          = (Inr s :: exn + string)"
    unfolding render_section_def by (rule and_then_InrE)
  then show thesis using that by simp
qed

text \<open>
  The two guarded stages. \<^verbatim>\<open>fetch_article\<close> returns \<open>None\<close>, and raises nothing, when
  the URL is \<open>None\<close> or empty, when the request for the page fails (a connection
  error, a timeout or a 4xx or 5xx status), and when the readability reduction raises.
  Without an article the body of the section is the post's self-text between the content
  markup if the self-text is there and not empty, and the placeholder otherwise; the
  rendered section contains that body.
\<close>

lemma fetch_article_absent_and_fallback:
  \<open>fetch_article w None = Inr None
   \<and> fetch_article w (Some []) = Inr None
   \<and> (attempt_failed (web_page w u) \<longrightarrow> fetch_article w (Some u) = Inr None)
   \<and> (\<forall>resp. get_checked (web_page w u) = Inr resp
          \<and> readability_summary w (payload resp) = None
        \<longrightarrow> fetch_article w (Some u) = Inr None)
   \<and> (\<forall>t. story_text p = Some t \<and> t \<noteq> []
        \<longrightarrow> article_section p None = ''<div class="content">'' @ t @ ''</div>'')
   \<and> (story_text p = None \<or> story_text p = Some []
        \<longrightarrow> article_section p None
            = ''<div class="unavailable">Article content could not be retrieved.</div>'')
   \<and> (\<forall>s. render_section w p None comments rank total_count = Inr s
        \<longrightarrow> sublist (article_section p None) s)\<close>
proof (intro conjI allI impI)
  show "fetch_article w None = Inr None"
    by (simp add: fetch_article_def)
  show "fetch_article w (Some []) = Inr None"
    by (simp add: fetch_article_def)
  show "fetch_article w (Some u) = Inr None" if "attempt_failed (web_page w u)"
    using that by (rule fetch_article_fetch_fails)
  show "fetch_article w (Some u) = Inr None"
    if "get_checked (web_page w u) = Inr resp \<and> readability_summary w (payload resp) = None"
    for resp
    using that by (simp add: fetch_article_reduction_raises)
  show \<open>article_section p None = ''<div class="content">'' @ t @ ''</div>''\<close>
    if "story_text p = Some t \<and> t \<noteq> []" for t
    using that by (simp add: article_section_def)
  show \<open>article_section p None
      = ''<div class="unavailable">Article content could not be retrieved.</div>''\<close>
    if "story_text p = None \<or> story_text p = Some []"
    using that by (auto simp: article_section_def)
  show "sublist (article_section p None) s"
    if "render_section w p None comments rank total_count = Inr s" for s
  proof -
    from that obtain blocks where
      "s = SECTION_TEMPLATE (fields_of p None comments blocks rank total_count)"
      by (rule render_section_Inr)
    moreover have "article_section_field (fields_of p None comments blocks rank total_count)
        = article_section p None"
      by (simp add: fields_of_def)
    ultimately show ?thesis
      using SECTION_TEMPLATE_article [of "fields_of p None comments blocks rank total_count"]
      by simp
  qed
qed

text \<open>
  An unreachable page in \<open>example_world\<close>: the article is absent, and the text post falls
  back to its self-text.
\<close>

lemma fetch_article_absent_and_fallback_witness:
  \<open>fetch_article example_world (Some ''https://down.example/x'') = Inr None
   \<and> article_section text_post None = ''<div class="content"><p>Why?</p></div>''\<close>
proof -
  have "attempt_failed (web_page example_world ''https://down.example/x'')"
    by code_simp
  moreover have "story_text text_post = Some ''<p>Why?</p>'' \<and> ''<p>Why?</p>'' \<noteq> []"
    by (simp add: text_post_def)
  ultimately show ?thesis
    using fetch_article_absent_and_fallback
      [of example_world "''https://down.example/x''" text_post]
    by simp
qed

text \<open>
  C6 in \<open>bracket_world\<close>. Article extraction raises out of the pipeline. The page
  \<^verbatim>\<open>https://ex.com/post\<close> is fetched and reduced without an exception, and the reduced
  fragment holds an image whose source is \<^verbatim>\<open>//[\<close>. The loop over the images stands
  after the two \<^verbatim>\<open>try\<close> blocks of \<^verbatim>\<open>fetch_article\<close>; there \<^verbatim>\<open>urljoin\<close> raises
  \<open>ValueError\<close>, which leaves \<^verbatim>\<open>fetch_article\<close>. Discovery has found two posts, the
  first post's entry is not built, and the run ends with exit code 1.
\<close>

theorem fetch_article_raises_ValueError:
  "get_checked (web_page bracket_world ''https://ex.com/post'')
     = Inr \<lparr>status_code = 200, payload = ''<html>page</html>''\<rparr>
   \<and> readability_summary bracket_world ''<html>page</html>'' = Some ''<html>page</html>''
   \<and> fetch_article bracket_world (Some ''https://ex.com/post'') = Inl ValueError
   \<and> find_top_posts_yesterday bracket_world MAX_POSTS = Inr [link_post, text_post]
   \<and> post_entry bracket_world link_post = Inl ValueError
   \<and> fst (main bracket_world no_files) = 1"
  by code_simp

section \<open>Properties of the output file\<close>

lemma generate_pdf_writes_one_file:
  assumes "generate_pdf w fs entries = Inr (path, fs')"
  shows "path = output_path w \<and> fs' path \<noteq> None \<and> (\<forall>name. name \<noteq> path \<longrightarrow> fs' name = fs name)"
  using assms by (elim generate_pdf_Inr) simp

text \<open>
  C8 at two invocations. In \<open>midnight_world\<close> discovery covers 2024-01-01 and the run
  succeeds and writes \<open>2024-01-02.pdf\<close>; in \<open>new_york_world\<close> discovery covers
  2024-01-02 and the file is named \<open>2024-01-01.pdf\<close>.
\<close>

theorem output_name_differs_from_window_day:
  "(case main midnight_world no_files of
      (code, fs') \<Rightarrow> code = 0 \<and> fs' ''~/Documents/hn-digests/2024-01-02.pdf'' \<noteq> None)
   \<and> output_path midnight_world = ''~/Documents/hn-digests/2024-01-02.pdf''
   \<and> isoformat (window_day midnight_world) = ''2024-01-01''
   \<and> output_path new_york_world = ''~/Documents/hn-digests/2024-01-01.pdf''
   \<and> isoformat (window_day new_york_world) = ''2024-01-02''"
  by code_simp

section \<open>Properties of rendering\<close>

lemma sublist_skip_char: "sublist x ys \<Longrightarrow> sublist x (c # ys)"
  by (metis sublist_Cons_right)

lemma prefix_sublist: "prefix x ys \<Longrightarrow> sublist x ys"
  by (rule prefix_imp_sublist)

lemma SECTION_TEMPLATE_title:
  \<open>sublist (''<h1>'' @ title_field f @ ''</h1>'') (SECTION_TEMPLATE f)\<close>
  unfolding SECTION_TEMPLATE_def
  apply (simp only: append_Cons append_Nil append_assoc)
  apply ((rule prefix_sublist, (simp; fail)) | rule sublist_drop_head | rule sublist_skip_char)+
  done

lemma SECTION_TEMPLATE_author:
  \<open>sublist (''by <strong>'' @ author_field f @ ''</strong>'') (SECTION_TEMPLATE f)\<close>
  unfolding SECTION_TEMPLATE_def
  apply (simp only: append_Cons append_Nil append_assoc)
  apply ((rule prefix_sublist, (simp; fail)) | rule sublist_drop_head | rule sublist_skip_char)+
  done

lemma SECTION_TEMPLATE_comments: "sublist (comments_html_field f) (SECTION_TEMPLATE f)"
  unfolding SECTION_TEMPLATE_def
  by (rule sublist_append_rightI | rule sublist_drop_head)+

lemma COMMENT_TEMPLATE_body:
  \<open>sublist (''<div class="comment-body">'' @ body @ ''</div>'') (COMMENT_TEMPLATE a t n body)\<close>
  unfolding COMMENT_TEMPLATE_def
  apply (simp only: append_Cons append_Nil append_assoc)
  apply ((rule prefix_sublist, (simp; fail)) | rule sublist_drop_head | rule sublist_skip_char)+
  done

lemma COMMENT_TEMPLATE_author:
  \<open>sublist (''<strong>'' @ a @ ''</strong>'') (COMMENT_TEMPLATE a t n body)\<close>
  unfolding COMMENT_TEMPLATE_def
  apply (simp only: append_Cons append_Nil append_assoc)
  apply ((rule prefix_sublist, (simp; fail)) | rule sublist_drop_head | rule sublist_skip_char)+
  done

lemma escape_char_no_markup:
  "ch \<in> set (escape_char c) \<Longrightarrow>
     ch \<noteq> CHR ''<'' \<and> ch \<noteq> CHR ''>'' \<and> ch \<noteq> CHR 0x22 \<and> ch \<noteq> CHR 0x27"
  by (auto simp: escape_char_def split: if_splits)

lemma escape_no_markup:
  "ch \<in> set (escape x) \<Longrightarrow>
     ch \<noteq> CHR ''<'' \<and> ch \<noteq> CHR ''>'' \<and> ch \<noteq> CHR 0x22 \<and> ch \<noteq> CHR 0x27"
  unfolding escape_def by (auto dest: escape_char_no_markup)

lemma sublist_join_lines: "b \<in> set bs \<Longrightarrow> sublist b (join_lines bs)"
proof (induction bs rule: join_lines.induct)
  case 1
  then show ?case by simp
next
  case (2 l)
  then show ?case by simp
next
  case (3 l v va)
  show ?case
  proof (cases "b = l")
    case True
    then show ?thesis by simp
  next
    case False
    with "3.prems" have "b \<in> set (v # va)" by simp
    then have "sublist b (join_lines (v # va))" by (rule "3.IH")
    then have "sublist b (''\<newline>'' @ join_lines (v # va))" by (rule sublist_drop_head)
    then have "sublist b (l @ ''\<newline>'' @ join_lines (v # va))" by (rule sublist_drop_head)
    then show ?thesis by simp
  qed
qed

lemma comment_block_Inr:
  assumes "comment_block w c = Inr b"
  obtains kvs time_str n a where "c = JObj kvs"
    and "(case map_of kvs ''by'' of None \<Rightarrow> JStr ''[unknown]'' | Some v \<Rightarrow> v) = JStr a"
    and \<open>b = COMMENT_TEMPLATE (escape a) time_str n
           (format_value (container_repr w)
              (case map_of kvs ''text'' of None \<Rightarrow> JStr ''<em>[deleted]</em>'' | Some v \<Rightarrow> v))\<close>
proof -
  from assms obtain t where t: "dict_index c ''time'' = Inr t" and
    r1: \<open>and_then
         (case t of
            JInt n \<Rightarrow> strftime_utc w n
          | JBool b \<Rightarrow> strftime_utc w (if b then 1 else 0)
          | _ \<Rightarrow> Inl TypeError)
         (\<lambda>time_str.
           and_then (dict_get c ''kids'' (JArr [])) (\<lambda>kids.
             and_then (py_len kids) (\<lambda>reply_count.
               and_then (dict_get c ''by'' (JStr ''[unknown]'')) (\<lambda>by.
                 and_then (case by of JStr s \<Rightarrow> Inr (escape s) | _ \<Rightarrow> Inl AttributeError)
                   (\<lambda>author_html.
                     and_then (dict_get c ''text'' (JStr ''<em>[deleted]</em>'')) (\<lambda>body.
                       Inr (COMMENT_TEMPLATE author_html time_str (str_nat reply_count)
                              (format_value (container_repr w) body)))))))) = Inr b\<close>
    unfolding comment_block_def by (rule and_then_InrE)
  from t obtain kvs where c: "c = JObj kvs"
    by (cases c) simp_all
  from r1 obtain time_str where
    r2: \<open>and_then (dict_get c ''kids'' (JArr [])) (\<lambda>kids.
             and_then (py_len kids) (\<lambda>reply_count.
               and_then (dict_get c ''by'' (JStr ''[unknown]'')) (\<lambda>by.
                 and_then (case by of JStr s \<Rightarrow> Inr (escape s) | _ \<Rightarrow> Inl AttributeError)
                   (\<lambda>author_html.
                     and_then (dict_get c ''text'' (JStr ''<em>[deleted]</em>'')) (\<lambda>body.
                       Inr (COMMENT_TEMPLATE author_html time_str (str_nat reply_count)
                              (format_value (container_repr w) body))))))) = Inr b\<close>
    by (rule and_then_InrE)
  then obtain kids where
    r3: \<open>and_then (py_len kids) (\<lambda>reply_count.
               and_then (dict_get c ''by'' (JStr ''[unknown]'')) (\<lambda>by.
                 and_then (case by of JStr s \<Rightarrow> Inr (escape s) | _ \<Rightarrow> Inl AttributeError)
                   (\<lambda>author_html.
                     and_then (dict_get c ''text'' (JStr ''<em>[deleted]</em>'')) (\<lambda>body.
                       Inr (COMMENT_TEMPLATE author_html time_str (str_nat reply_count)
                              (format_value (container_repr w) body)))))) = Inr b\<close>
    by (rule and_then_InrE)
  then obtain reply_count where
    r4: \<open>and_then (dict_get c ''by'' (JStr ''[unknown]'')) (\<lambda>by.
                 and_then (case by of JStr s \<Rightarrow> Inr (escape s) | _ \<Rightarrow> Inl AttributeError)
                   (\<lambda>author_html.
                     and_then (dict_get c ''text'' (JStr ''<em>[deleted]</em>'')) (\<lambda>body.
                       Inr (COMMENT_TEMPLATE author_html time_str (str_nat reply_count)
                              (format_value (container_repr w) body))))) = Inr b\<close>
    by (rule and_then_InrE)
  then obtain by_value where by_value: "dict_get c ''by'' (JStr ''[unknown]'') = Inr by_value" and
    r5: \<open>and_then (case by_value of JStr s \<Rightarrow> Inr (escape s) | _ \<Rightarrow> Inl AttributeError)
                   (\<lambda>author_html.
                     and_then (dict_get c ''text'' (JStr ''<em>[deleted]</em>'')) (\<lambda>body.
                       Inr (COMMENT_TEMPLATE author_html time_str (str_nat reply_count)
                              (format_value (container_repr w) body)))) = Inr b\<close>
    by (rule and_then_InrE)
  from r5 obtain author_html where
    au: "(case by_value of JStr s \<Rightarrow> Inr (escape s) | _ \<Rightarrow> Inl AttributeError) = Inr author_html"
    and r6: \<open>and_then (dict_get c ''text'' (JStr ''<em>[deleted]</em>'')) (\<lambda>body.
                       Inr (COMMENT_TEMPLATE author_html time_str (str_nat reply_count)
                              (format_value (container_repr w) body))) = Inr b\<close>
    by (rule and_then_InrE)
  from au obtain a where a: "by_value = JStr a" and author_html: "author_html = escape a"
    by (cases by_value) auto
  from r6 obtain body where body: "dict_get c ''text'' (JStr ''<em>[deleted]</em>'') = Inr body"
    and b: \<open>Inr (COMMENT_TEMPLATE author_html time_str (str_nat reply_count)
                              (format_value (container_repr w) body)) = (Inr b :: exn + string)\<close>
    by (rule and_then_InrE)
  from by_value a c
  have "(case map_of kvs ''by'' of None \<Rightarrow> JStr ''[unknown]'' | Some v \<Rightarrow> v) = JStr a"
    by simp
  moreover from body b c author_html
  have \<open>b = COMMENT_TEMPLATE (escape a) time_str (str_nat reply_count)
           (format_value (container_repr w)
              (case map_of kvs ''text'' of None \<Rightarrow> JStr ''<em>[deleted]</em>'' | Some v \<Rightarrow> v))\<close>
    by auto
  ultimately show thesis using c that by blast
qed

text \<open>
  C10. In a rendered section the title stands between the heading markup, and the author
  after \<open>by\<close>, both as \<^verbatim>\<open>escape\<close> returns them, and what \<^verbatim>\<open>escape\<close> returns holds none
  of the characters \<open><\<close>, \<open>>\<close> and the two quotes. When there is no article, a self-text
  that is not empty stands between the content markup as it is. Every comment is an
  object; a body text that is a string stands between the body markup as it is, a missing
  body text is replaced by the \<open>[deleted]\<close> placeholder, and the comment's author is
  escaped, or \<open>[unknown]\<close> when missing.
\<close>

theorem render_section_escaping:
  assumes "render_section w p art comments rank total_count = Inr s"
  shows \<open>sublist (''<h1>'' @ escape (title p) @ ''</h1>'') s
     \<and> sublist (''by <strong>'' @ escape (author p) @ ''</strong>'') s
     \<and> (\<forall>x. \<forall>ch\<in>set (escape x).
           ch \<noteq> CHR ''<'' \<and> ch \<noteq> CHR ''>'' \<and> ch \<noteq> CHR 0x22 \<and> ch \<noteq> CHR 0x27)
     \<and> (art = None \<longrightarrow>
          (\<forall>t. story_text p = Some t \<and> t \<noteq> []
             \<longrightarrow> sublist (''<div class="content">'' @ t @ ''</div>'') s))
     \<and> (\<forall>c\<in>set comments. \<exists>kvs. c = JObj kvs
          \<and> (\<forall>body. map_of kvs ''text'' = Some (JStr body)
                \<longrightarrow> sublist (''<div class="comment-body">'' @ body @ ''</div>'') s)
          \<and> (map_of kvs ''text'' = None
                \<longrightarrow> sublist ''<div class="comment-body"><em>[deleted]</em></div>'' s)
          \<and> (\<forall>a. map_of kvs ''by'' = Some (JStr a)
                \<longrightarrow> sublist (''<strong>'' @ escape a @ ''</strong>'') s)
          \<and> (map_of kvs ''by'' = None \<longrightarrow> sublist ''<strong>[unknown]</strong>'' s))\<close>
proof -
  from assms obtain blocks where
    blocks: "all_results (map (comment_block w) comments) = Inr blocks"
    and s: "s = SECTION_TEMPLATE (fields_of p art comments blocks rank total_count)"
    by (rule render_section_Inr)
  let ?f = "fields_of p art comments blocks rank total_count"
  have tf: "title_field ?f = escape (title p)"
    and af: "author_field ?f = escape (author p)"
    and sf: "article_section_field ?f = article_section p art"
    and cf: "comments_html_field ?f = join_lines blocks"
    by (simp_all add: fields_of_def)
  have title: \<open>sublist (''<h1>'' @ escape (title p) @ ''</h1>'') s\<close>
    unfolding s tf [symmetric] by (rule SECTION_TEMPLATE_title)
  have author: \<open>sublist (''by <strong>'' @ escape (author p) @ ''</strong>'') s\<close>
    unfolding s af [symmetric] by (rule SECTION_TEMPLATE_author)
  have esc: "\<forall>x. \<forall>ch\<in>set (escape x).
           ch \<noteq> CHR ''<'' \<and> ch \<noteq> CHR ''>'' \<and> ch \<noteq> CHR 0x22 \<and> ch \<noteq> CHR 0x27"
    using escape_no_markup by blast
  have self_text: \<open>sublist (''<div class="content">'' @ t @ ''</div>'') s\<close>
    if "art = None" and "story_text p = Some t \<and> t \<noteq> []" for t
  proof -
    from that have \<open>article_section p art = ''<div class="content">'' @ t @ ''</div>''\<close>
      by (simp add: article_section_def)
    then have \<open>''<div class="content">'' @ t @ ''</div>'' = article_section_field ?f\<close>
      by (simp only: sf)
    then show ?thesis
      unfolding s by (simp only: SECTION_TEMPLATE_article)
  qed
  have in_section: "sublist x s" if "b \<in> set blocks" and "sublist x b" for x b
  proof -
    from that(1) have "sublist b (join_lines blocks)"
      by (rule sublist_join_lines)
    then have "sublist b (comments_html_field ?f)"
      by (simp only: cf)
    with that(2) have "sublist x (comments_html_field ?f)"
      by (rule sublist_order.order.trans)
    then show ?thesis
      unfolding s using SECTION_TEMPLATE_comments [of ?f]
      by (rule sublist_order.order.trans)
  qed
  have comment: \<open>\<exists>kvs. c = JObj kvs
          \<and> (\<forall>body. map_of kvs ''text'' = Some (JStr body)
                \<longrightarrow> sublist (''<div class="comment-body">'' @ body @ ''</div>'') s)
          \<and> (map_of kvs ''text'' = None
                \<longrightarrow> sublist ''<div class="comment-body"><em>[deleted]</em></div>'' s)
          \<and> (\<forall>a. map_of kvs ''by'' = Some (JStr a)
                \<longrightarrow> sublist (''<strong>'' @ escape a @ ''</strong>'') s)
          \<and> (map_of kvs ''by'' = None \<longrightarrow> sublist ''<strong>[unknown]</strong>'' s)\<close>
    if "c \<in> set comments" for c
  proof -
    from that obtain i where i: "i < length comments" and c: "c = comments ! i"
      by (auto simp: in_set_conv_nth)
    from all_results_nth [OF blocks] i
    have block: "comment_block w c = Inr (blocks ! i)" and "i < length blocks"
      by (simp_all add: c)
    then have mem: "blocks ! i \<in> set blocks" by simp
    from block obtain kvs time_str n a where kvs: "c = JObj kvs"
      and by_value: "(case map_of kvs ''by'' of None \<Rightarrow> JStr ''[unknown]'' | Some v \<Rightarrow> v) = JStr a"
      and b: \<open>blocks ! i = COMMENT_TEMPLATE (escape a) time_str n
           (format_value (container_repr w)
              (case map_of kvs ''text'' of None \<Rightarrow> JStr ''<em>[deleted]</em>'' | Some v \<Rightarrow> v))\<close>
      by (rule comment_block_Inr)
    have body_in: \<open>sublist (''<div class="comment-body">'' @ body @ ''</div>'') s\<close>
      if "format_value (container_repr w)
              (case map_of kvs ''text'' of None \<Rightarrow> JStr ''<em>[deleted]</em>'' | Some v \<Rightarrow> v) = body"
      for body
    proof -
      from b that have "blocks ! i = COMMENT_TEMPLATE (escape a) time_str n body"
        by (simp only:)
      then have \<open>sublist (''<div class="comment-body">'' @ body @ ''</div>'') (blocks ! i)\<close>
        by (simp only: COMMENT_TEMPLATE_body)
      with mem show ?thesis by (rule in_section)
    qed
    have author_in: \<open>sublist (''<strong>'' @ escape a @ ''</strong>'') s\<close>
    proof -
      have \<open>sublist (''<strong>'' @ escape a @ ''</strong>'') (blocks ! i)\<close>
        unfolding b by (rule COMMENT_TEMPLATE_author)
      with mem show ?thesis by (rule in_section)
    qed
    have t1: \<open>sublist (''<div class="comment-body">'' @ body @ ''</div>'') s\<close>
      if "map_of kvs ''text'' = Some (JStr body)" for body
      by (rule body_in) (simp add: that)
    have t2: \<open>sublist ''<div class="comment-body"><em>[deleted]</em></div>'' s\<close>
      if "map_of kvs ''text'' = None"
    proof -
      have \<open>sublist (''<div class="comment-body">'' @ ''<em>[deleted]</em>'' @ ''</div>'') s\<close>
        by (rule body_in) (simp add: that)
      moreover have \<open>''<div class="comment-body">'' @ ''<em>[deleted]</em>'' @ ''</div>''
          = ''<div class="comment-body"><em>[deleted]</em></div>''\<close>
        by (simp only: append_Cons append_Nil)
      ultimately show ?thesis by (simp only:)
    qed
    have t3: \<open>sublist (''<strong>'' @ escape a' @ ''</strong>'') s\<close>
      if "map_of kvs ''by'' = Some (JStr a')" for a'
    proof -
      from that by_value have "a' = a" by simp
      with author_in show ?thesis by (simp only:)
    qed
    have t4: \<open>sublist ''<strong>[unknown]</strong>'' s\<close>
      if "map_of kvs ''by'' = None"
    proof -
      from that by_value have "a = ''[unknown]''" by simp
      then have "escape a = ''[unknown]''"
        by (simp add: escape_def escape_char_def)
      with author_in have \<open>sublist (''<strong>'' @ ''[unknown]'' @ ''</strong>'') s\<close>
        by (simp only:)
      moreover have \<open>''<strong>'' @ ''[unknown]'' @ ''</strong>'' = ''<strong>[unknown]</strong>''\<close>
        by (simp only: append_Cons append_Nil)
      ultimately show ?thesis by (simp only:)
    qed
    show ?thesis
    proof (intro exI [of _ kvs] conjI allI impI)
      show "c = JObj kvs" by (rule kvs)
      show \<open>sublist (''<div class="comment-body">'' @ body @ ''</div>'') s\<close>
        if "map_of kvs ''text'' = Some (JStr body)" for body
        using that by (rule t1)
      show \<open>sublist ''<div class="comment-body"><em>[deleted]</em></div>'' s\<close>
        if "map_of kvs ''text'' = None"
        using that by (rule t2)
      show \<open>sublist (''<strong>'' @ escape a' @ ''</strong>'') s\<close>
        if "map_of kvs ''by'' = Some (JStr a')" for a'
        using that by (rule t3)
      show \<open>sublist ''<strong>[unknown]</strong>'' s\<close>
        if "map_of kvs ''by'' = None"
        using that by (rule t4)
    qed
  qed
  have self_text': \<open>art = None \<longrightarrow>
          (\<forall>t. story_text p = Some t \<and> t \<noteq> []
             \<longrightarrow> sublist (''<div class="content">'' @ t @ ''</div>'') s)\<close>
    by (intro impI allI) (rule self_text)
  have comment': \<open>\<forall>c\<in>set comments. \<exists>kvs. c = JObj kvs
          \<and> (\<forall>body. map_of kvs ''text'' = Some (JStr body)
                \<longrightarrow> sublist (''<div class="comment-body">'' @ body @ ''</div>'') s)
          \<and> (map_of kvs ''text'' = None
                \<longrightarrow> sublist ''<div class="comment-body"><em>[deleted]</em></div>'' s)
          \<and> (\<forall>a. map_of kvs ''by'' = Some (JStr a)
                \<longrightarrow> sublist (''<strong>'' @ escape a @ ''</strong>'') s)
          \<and> (map_of kvs ''by'' = None \<longrightarrow> sublist ''<strong>[unknown]</strong>'' s)\<close>
    by (intro ballI) (rule comment)
  show ?thesis
    by (rule conjI [OF title conjI [OF author conjI [OF esc conjI [OF self_text' comment']]]])
qed

lemma text_post_section_renders:
  "(case render_section example_world text_post None [comment_item 10 []] 1 1 of
      Inr _ \<Rightarrow> True | Inl _ \<Rightarrow> False)"
  by code_simp

lemma text_post_title_escaped: "escape (title text_post) = ''Ask HN: why &lt;now&gt;?''"
  by code_simp

text \<open>
  The section of the text post of \<open>example_world\<close> with one comment: the title is escaped,
  the self-text and the body of the comment are not.
\<close>

theorem render_section_escaping_witness:
  \<open>\<exists>s. render_section example_world text_post None [comment_item 10 []] 1 1 = Inr s
      \<and> sublist ''<h1>Ask HN: why &lt;now&gt;?</h1>'' s
      \<and> sublist ''<div class="content"><p>Why?</p></div>'' s
      \<and> sublist ''<div class="comment-body"><p>Reply</p></div>'' s\<close>
proof -
  from text_post_section_renders obtain s where
    r: "render_section example_world text_post None [comment_item 10 []] 1 1 = Inr s"
    by (cases "render_section example_world text_post None [comment_item 10 []] 1 1") auto
  note facts = render_section_escaping [OF r]
  from facts have \<open>sublist (''<h1>'' @ escape (title text_post) @ ''</h1>'') s\<close>
    by (rule conjunct1)
  then have a: \<open>sublist ''<h1>Ask HN: why &lt;now&gt;?</h1>'' s\<close>
    by (simp only: text_post_title_escaped append_Cons append_Nil)
  from facts have \<open>\<forall>t. story_text text_post = Some t \<and> t \<noteq> []
             \<longrightarrow> sublist (''<div class="content">'' @ t @ ''</div>'') s\<close>
    by blast
  moreover have "story_text text_post = Some ''<p>Why?</p>'' \<and> ''<p>Why?</p>'' \<noteq> []"
    by (simp add: text_post_def)
  ultimately have \<open>sublist (''<div class="content">'' @ ''<p>Why?</p>'' @ ''</div>'') s\<close>
    by blast
  then have b: \<open>sublist ''<div class="content"><p>Why?</p></div>'' s\<close>
    by (simp only: append_Cons append_Nil)
  from facts have \<open>\<forall>c\<in>set [comment_item 10 []]. \<exists>kvs. c = JObj kvs
          \<and> (\<forall>body. map_of kvs ''text'' = Some (JStr body)
                \<longrightarrow> sublist (''<div class="comment-body">'' @ body @ ''</div>'') s)
          \<and> (map_of kvs ''text'' = None
                \<longrightarrow> sublist ''<div class="comment-body"><em>[deleted]</em></div>'' s)
          \<and> (\<forall>a. map_of kvs ''by'' = Some (JStr a)
                \<longrightarrow> sublist (''<strong>'' @ escape a @ ''</strong>'') s)
          \<and> (map_of kvs ''by'' = None \<longrightarrow> sublist ''<strong>[unknown]</strong>'' s)\<close>
    by (elim conjE)
  then obtain kvs where kvs: "comment_item 10 [] = JObj kvs"
    and body: \<open>\<forall>body. map_of kvs ''text'' = Some (JStr body)
                \<longrightarrow> sublist (''<div class="comment-body">'' @ body @ ''</div>'') s\<close>
    by auto
  from kvs have "map_of kvs ''text'' = Some (JStr ''<p>Reply</p>'')"
    by (auto simp: comment_item_def)
  with body have \<open>sublist (''<div class="comment-body">'' @ ''<p>Reply</p>'' @ ''</div>'') s\<close>
    by blast
  then have c: \<open>sublist ''<div class="comment-body"><p>Reply</p></div>'' s\<close>
    by (simp only: append_Cons append_Nil)
  from r a b c show ?thesis by blast
qed

section \<open>Properties of failure isolation\<close>




















end
